theory Spec2Isabelle
  imports Main
begin

section \<open>Go string helpers\<close>

text \<open>Go strings are byte sequences; they are modelled as \<open>string\<close> (a list of 8-bit characters).\<close>

definition HasPrefix :: "string \<Rightarrow> string \<Rightarrow> bool" where
  "HasPrefix s p = (take (length p) s = p)"

fun Contains :: "string \<Rightarrow> string \<Rightarrow> bool" where
  "Contains [] sub = (sub = [])"
| "Contains (c # cs) sub = (HasPrefix (c # cs) sub \<or> Contains cs sub)"

fun Index :: "string \<Rightarrow> string \<Rightarrow> nat option" where
  "Index [] sub = (if sub = [] then Some 0 else None)"
| "Index (c # cs) sub =
     (if HasPrefix (c # cs) sub then Some 0 else map_option Suc (Index cs sub))"

section \<open>Package image: ExtractDigest\<close>

text \<open>The inner loop of ExtractDigest: \<open>end\<close> starts as \<open>len(remaining)\<close> and becomes the
  offset of the first \<open>@\<close> or space. Go ranges over runes, but both separators are ASCII and no
  byte of a multi-byte UTF-8 sequence is ASCII, so the byte-wise scan finds the same offset.\<close>

fun findEnd :: "string \<Rightarrow> nat \<Rightarrow> nat" where
  "findEnd [] j = j"
| "findEnd (c # cs) j = (if c = CHR ''@'' \<or> c = CHR '' '' then j else findEnd cs (Suc j))"

text \<open>The outer loop \<open>for i := 0; i < len(imageID)-7; i++\<close>. The bound is a signed Go
  \<open>int\<close>, so it is written over \<open>int\<close> here: for inputs shorter than seven bytes it is negative
  and the loop body never runs.\<close>

function digestLoop :: "string \<Rightarrow> nat \<Rightarrow> string" where
  "digestLoop imageID i =
     (if int i < int (length imageID) - 7 then
        (if take 7 (drop i imageID) = ''sha256:'' then
           (let remaining = drop i imageID in take (findEnd remaining 0) remaining)
         else digestLoop imageID (Suc i))
      else imageID)"
  by pat_completeness auto
termination
  by (relation "measure (\<lambda>(imageID, i). length imageID - i)") auto

declare digestLoop.simps [simp del]

definition ExtractDigest :: "string \<Rightarrow> string" where
  "ExtractDigest imageID = (if imageID = [] then [] else digestLoop imageID 0)"

text \<open>The digest extraction contract in the words of the specification: the substring from the
  first occurrence of \<open>sha256:\<close> up to the next \<open>@\<close>, space or the end of the string; the
  input itself when there is no occurrence.\<close>

definition spec_ExtractDigest :: "string \<Rightarrow> string" where
  "spec_ExtractDigest s =
     (case Index s ''sha256:'' of
        None \<Rightarrow> s
      | Some i \<Rightarrow> takeWhile (\<lambda>c. c \<noteq> CHR ''@'' \<and> c \<noteq> CHR '' '') (drop i s))"

section \<open>Package deploymentrecord: records\<close>

definition StatusDeployed :: string where
  "StatusDeployed = ''deployed''"

definition StatusDecommissioned :: string where
  "StatusDecommissioned = ''decommissioned''"

record DeploymentRecord =
  Name :: string
  Digest :: string
  Version :: string
  LogicalEnvironment :: string
  PhysicalEnvironment :: string
  Cluster :: string
  Status :: string
  DeploymentName :: string

definition NewDeploymentRecord ::
  "string \<Rightarrow> string \<Rightarrow> string \<Rightarrow> string \<Rightarrow> string \<Rightarrow> string \<Rightarrow> string \<Rightarrow> string
     \<Rightarrow> DeploymentRecord" where
  "NewDeploymentRecord name digest version logicalEnv physicalEnv cluster status deploymentName =
     (let status' = (if status \<noteq> StatusDeployed \<and> status \<noteq> StatusDecommissioned
                     then StatusDeployed else status)
      in \<lparr> Name = name, Digest = digest, Version = version,
           LogicalEnvironment = logicalEnv, PhysicalEnvironment = physicalEnv,
           Cluster = cluster, Status = status', DeploymentName = deploymentName \<rparr>)"

section \<open>Package deploymentrecord: the delivery client\<close>

text \<open>Go's \<open>int\<close>, \<open>int64\<close> and \<open>time.Duration\<close> are 64-bit two's complement integers; their
  arithmetic is modelled over \<open>int\<close> with the wrap-around written out.\<close>

definition wrap64 :: "int \<Rightarrow> int" where
  "wrap64 x = (x + 2 ^ 63) mod 2 ^ 64 - 2 ^ 63"

definition Millisecond :: int where
  "Millisecond = 1000000"

definition Second :: int where
  "Second = 1000000000"

datatype err =
    RecordNil
  | RateLimiterWait
  | ContextCancelled
  | CreateRequest
  | AccessToken
  | PostRequestFailed
  | UnexpectedStatus int
  | ClientError err
  | AllRetriesExhausted "err option"
  | InvalidStatus string
  | InsecureURL string
  | InvalidOrg string

text \<open>\<open>errors.As(err, &clientErr)\<close>: walk the \<open>Unwrap\<close> chain looking for a \<open>*ClientError\<close>.
  The errors wrapped from outside the package (context, transport and network errors) are
  never of that type.\<close>

fun errorsAsClientError :: "err \<Rightarrow> bool" where
  "errorsAsClientError (ClientError e) = True"
| "errorsAsClientError (AllRetriesExhausted (Some e)) = errorsAsClientError e"
| "errorsAsClientError e = False"

record Client =
  baseURL :: string
  org :: string
  timeout :: int
  retries :: int
  apiToken :: string
  transport :: bool
  rateLimit :: nat
  rateBurst :: int

text \<open>A \<open>ClientOption\<close> is a function that configures the client; \<open>None\<close> stands for a panic
  inside the option.\<close>

type_synonym ClientOption = "Client \<Rightarrow> Client option"

definition WithTimeout :: "int \<Rightarrow> ClientOption" where
  "WithTimeout seconds c = Some (c\<lparr>timeout := wrap64 (wrap64 seconds * Second)\<rparr>)"

definition WithRetries :: "int \<Rightarrow> ClientOption" where
  "WithRetries n c = Some (c\<lparr>retries := n\<rparr>)"

definition WithAPIToken :: "string \<Rightarrow> ClientOption" where
  "WithAPIToken token c = Some (c\<lparr>apiToken := token\<rparr>)"

text \<open>\<open>WithGHApp\<close> panics when either identifier is not a number or the key cannot be loaded.
  \<open>strconv.Atoi\<close> and \<open>ghinstallation.NewKeyFromFile\<close> are library functions, taken as
  parameters.\<close>

definition WithGHApp ::
  "(string \<Rightarrow> int option) \<Rightarrow> (int \<Rightarrow> int \<Rightarrow> string \<Rightarrow> bool) \<Rightarrow> string \<Rightarrow> string \<Rightarrow> string
     \<Rightarrow> ClientOption" where
  "WithGHApp atoi newKeyFromFile ident installID pk c =
     (case atoi ident of
        None \<Rightarrow> None
      | Some pid \<Rightarrow>
          (case atoi installID of
             None \<Rightarrow> None
           | Some piid \<Rightarrow>
               if newKeyFromFile pid piid pk then Some (c\<lparr>transport := True\<rparr>) else None))"

fun applyOpts :: "ClientOption list \<Rightarrow> Client \<Rightarrow> Client option" where
  "applyOpts [] c = Some c"
| "applyOpts (opt # opts) c = (case opt c of None \<Rightarrow> None | Some c' \<Rightarrow> applyOpts opts c')"

text \<open>\<open>validOrgPattern\<close> is the regular expression \<open>^[a-zA-Z0-9_-]+$\<close>. In Go's syntax
  \<open>$\<close> without the multi-line flag matches at the end of the text only, and the class holds
  ASCII characters only, so a match is a non-empty string of bytes of the class.\<close>

definition orgChar :: "char \<Rightarrow> bool" where
  "orgChar c =
     (let n = (of_char c :: nat)
      in (97 \<le> n \<and> n \<le> 122) \<or> (65 \<le> n \<and> n \<le> 90) \<or> (48 \<le> n \<and> n \<le> 57)
         \<or> c = CHR ''_'' \<or> c = CHR ''-'')"

definition validOrgPattern :: "string \<Rightarrow> bool" where
  "validOrgPattern s = (s \<noteq> [] \<and> list_all orgChar s)"

datatype 'a outcome = Panic | Failed err | Returned 'a

definition isLocal :: "string \<Rightarrow> bool" where
  "isLocal url =
     (HasPrefix url ''http://localhost'' \<or> HasPrefix url ''http://127.0.0.1''
      \<or> Contains url ''.svc.cluster.local'')"

definition NewClient :: "string \<Rightarrow> string \<Rightarrow> ClientOption list \<Rightarrow> Client outcome" where
  "NewClient url organization opts =
     (if HasPrefix url ''http://'' \<and> \<not> isLocal url then Failed (InsecureURL url)
      else
        (let url' = (if \<not> HasPrefix url ''https://'' \<and> \<not> HasPrefix url ''http://''
                     then ''https://'' @ url else url)
         in if \<not> validOrgPattern organization then Failed (InvalidOrg organization)
            else
              (case applyOpts opts
                   \<lparr> baseURL = url', org = organization, timeout = 5 * Second, retries = 3,
                     apiToken = [], transport = False, rateLimit = 20, rateBurst = 50 \<rparr> of
                 None \<Rightarrow> Panic
               | Some c \<Rightarrow> Returned c)))"

text \<open>The host rule in the words of the specification: an \<open>http://\<close> URL targets a recognized
  local or in-cluster host when its host component (the text after the scheme, up to the first
  \<open>:\<close>, \<open>/\<close>, \<open>?\<close> or \<open>#\<close>) is \<open>localhost\<close>, \<open>127.0.0.1\<close>, or ends in
  \<open>.svc.cluster.local\<close>.\<close>

definition spec_host :: "string \<Rightarrow> string" where
  "spec_host url =
     takeWhile (\<lambda>c. c \<noteq> CHR '':'' \<and> c \<noteq> CHR ''/'' \<and> c \<noteq> CHR ''?'' \<and> c \<noteq> CHR ''#'')
       (drop (length ''http://'') url)"

definition HasSuffix :: "string \<Rightarrow> string \<Rightarrow> bool" where
  "HasSuffix s suf = (length suf \<le> length s \<and> drop (length s - length suf) s = suf)"

definition spec_targetsLocalHost :: "string \<Rightarrow> bool" where
  "spec_targetsLocalHost url =
     (let h = spec_host url
      in h = ''localhost'' \<or> h = ''127.0.0.1'' \<or> HasSuffix h ''.svc.cluster.local'')"

definition spec_NewClientFails :: "string \<Rightarrow> string \<Rightarrow> bool" where
  "spec_NewClientFails url organization =
     ((HasPrefix url ''http://'' \<and> \<not> spec_targetsLocalHost url) \<or> \<not> validOrgPattern organization)"

subsection \<open>PostOne\<close>

text \<open>What the outside world does during one call of PostOne. Per attempt: whether the
  context is cancelled while the backoff timer runs, whether building the request or fetching
  the installation token fails, what the HTTP round trip yields, and the raw random draw.
  Per call: whether the rate limiter's wait fails, and the value the platform produces when
  a floating-point number too large for \<open>int64\<close> is converted (implementation-dependent in
  Go).\<close>

datatype http_reply = NetworkError | Response int

record attempt_env =
  ctxDone :: bool
  requestErr :: bool
  tokenErr :: bool
  reply :: http_reply
  rnd :: nat

record call_env =
  limiterErr :: bool
  floatOverflow :: int
  attemptEnv :: "nat \<Rightarrow> attempt_env"

text \<open>\<open>rand.Int64N(n)\<close> yields a value in \<open>[0, n)\<close>: the raw draw reduced modulo \<open>n\<close>.\<close>

definition Int64N :: "nat \<Rightarrow> nat \<Rightarrow> int" where
  "Int64N r n = int (r mod n)"

text \<open>\<open>time.Duration(math.Pow(2, float64(attempt)))\<close>: exact while the power fits in
  \<open>int64\<close>, the platform's value otherwise.\<close>

definition pow2Duration :: "int \<Rightarrow> nat \<Rightarrow> int" where
  "pow2Duration ovf attempt = (if attempt < 63 then 2 ^ attempt else wrap64 ovf)"

definition backoffDelay :: "int \<Rightarrow> nat \<Rightarrow> nat \<Rightarrow> int" where
  "backoffDelay ovf attempt r =
     (let backoff = wrap64 (wrap64 (pow2Duration ovf attempt * 100) * Millisecond);
          jitter = wrap64 (Int64N r 50 * Millisecond);
          delay = wrap64 (backoff + jitter)
      in if delay > 5 * Second then 5 * Second else delay)"

text \<open>The observable trace of a call: completed backoff sleeps (in nanoseconds) and HTTP
  round trips (by attempt number), in the order they happen.\<close>

datatype event = Sleep int | Call nat

fun after :: "event list \<Rightarrow> err option \<times> event list \<Rightarrow> err option \<times> event list" where
  "after evs (e, evs') = (e, evs @ evs')"

text \<open>The attempt loop \<open>for attempt := range c.retries + 1\<close>; the first numeric argument is
  the number of iterations left.\<close>

fun attemptLoop :: "Client \<Rightarrow> call_env \<Rightarrow> nat \<Rightarrow> nat \<Rightarrow> err option \<Rightarrow> err option \<times> event list" where
  "attemptLoop c env 0 attempt lastErr = (Some (AllRetriesExhausted lastErr), [])"
| "attemptLoop c env (Suc n) attempt lastErr =
     (let a = attemptEnv env attempt;
          slept = (if 0 < attempt
                   then [Sleep (backoffDelay (floatOverflow env) attempt (rnd a))] else [])
      in if 0 < attempt \<and> ctxDone a then (Some ContextCancelled, [])
         else if requestErr a then (Some CreateRequest, slept)
         else if transport c \<and> tokenErr a then (Some AccessToken, slept)
         else
           (case reply a of
              NetworkError \<Rightarrow>
                after (slept @ [Call attempt])
                  (attemptLoop c env n (Suc attempt) (Some PostRequestFailed))
            | Response code \<Rightarrow>
                if 200 \<le> code \<and> code < 300 then (None, slept @ [Call attempt])
                else if 400 \<le> code \<and> code < 500 \<and> code \<noteq> 429
                then (Some (ClientError (UnexpectedStatus code)), slept @ [Call attempt])
                else
                  after (slept @ [Call attempt])
                    (attemptLoop c env n (Suc attempt) (Some (UnexpectedStatus code)))))"

text \<open>\<open>json.Marshal\<close> of a struct of strings cannot fail, so that branch is absent.\<close>

definition PostOne :: "Client \<Rightarrow> call_env \<Rightarrow> DeploymentRecord option \<Rightarrow> err option \<times> event list" where
  "PostOne c env record =
     (case record of
        None \<Rightarrow> (Some RecordNil, [])
      | Some r \<Rightarrow>
          if limiterErr env then (Some RateLimiterWait, [])
          else attemptLoop c env (nat (wrap64 (retries c + 1))) 0 None)"

section \<open>Package image: ExtractName\<close>

text \<open>\<open>strings.LastIndex\<close> for a one-byte separator: the offset of the last occurrence, or
  \<open>-1\<close>.\<close>

fun LastIndexByte :: "string \<Rightarrow> char \<Rightarrow> int" where
  "LastIndexByte [] c = -1"
| "LastIndexByte (x # xs) c =
     (let r = LastIndexByte xs c in if 0 \<le> r then r + 1 else if x = c then 0 else -1)"

definition ExtractName :: "string \<Rightarrow> string \<times> string" where
  "ExtractName img =
     (if img = [] then ([], [])
      else
        (let image1 = (case Index img ''@'' of Some idx \<Rightarrow> take idx img | None \<Rightarrow> img);
             lastSlash = LastIndexByte image1 CHR ''/'';
             tagStart = LastIndexByte image1 CHR '':''
         in if tagStart > lastSlash
            then (take (nat tagStart) image1, drop (nat (tagStart + 1)) image1)
            else (image1, [])))"

section \<open>Package controller\<close>

subsection \<open>Cluster objects\<close>

record OwnerReference =
  ownerKind :: string
  ownerName :: string

record Container =
  containerName :: string
  containerImage :: string

record ContainerStatus =
  statusName :: string
  statusImageID :: string

record Pod =
  podName :: string
  podNamespace :: string
  OwnerReferences :: "OwnerReference list"
  DeletionTimestamp :: "nat option"
  Phase :: string
  Containers :: "Container list"
  InitContainers :: "Container list"
  ContainerStatuses :: "ContainerStatus list"
  InitContainerStatuses :: "ContainerStatus list"

definition PodRunning :: string where
  "PodRunning = ''Running''"

definition EventCreated :: string where
  "EventCreated = ''CREATED''"

definition EventDeleted :: string where
  "EventDeleted = ''DELETED''"

text \<open>\<open>DeletedPod\<close> is a pointer: \<open>None\<close> is nil, \<open>Some a\<close> the address of the pod object
  the informer handed over. Go compares struct values field by field and pointers by
  address, which is what HOL's equality on this record does.\<close>

record PodEvent =
  Key :: string
  EventType :: string
  DeletedPod :: "nat option"

record Config =
  Template :: string
  cfgLogicalEnvironment :: string
  cfgPhysicalEnvironment :: string
  cfgCluster :: string

text \<open>Modelled from the spec: the three template placeholder constants \<open>TmplNS\<close>,
  \<open>TmplDN\<close> and \<open>TmplCN\<close> are declared in a file that is not among the sources; the
  specification gives their text.\<close>

definition TmplNS :: string where
  "TmplNS = ''{{namespace}}''"

definition TmplDN :: string where
  "TmplDN = ''{{deploymentName}}''"

definition TmplCN :: string where
  "TmplCN = ''{{containerName}}''"

text \<open>\<open>strings.ReplaceAll\<close> for a non-empty pattern: non-overlapping occurrences are replaced
  from left to right. (For an empty pattern Go inserts the replacement around every rune;
  the placeholders are never empty, and the model leaves the string unchanged.)\<close>

function ReplaceAll :: "string \<Rightarrow> string \<Rightarrow> string \<Rightarrow> string" where
  "ReplaceAll s old new =
     (if s = [] \<or> old = [] then s
      else if HasPrefix s old then new @ ReplaceAll (drop (length old) s) old new
      else hd s # ReplaceAll (tl s) old new)"
  by pat_completeness auto
termination
  by (relation "measure (\<lambda>(s, old, new). length s)") auto

declare ReplaceAll.simps [simp del]

fun getDeploymentName_owners :: "OwnerReference list \<Rightarrow> string" where
  "getDeploymentName_owners [] = []"
| "getDeploymentName_owners (owner # owners) =
     (if ownerKind owner = ''ReplicaSet'' then
        (let rsName = ownerName owner;
             lastDash = LastIndexByte rsName CHR ''-''
         in if lastDash > 0 then take (nat lastDash) rsName else rsName)
      else getDeploymentName_owners owners)"

definition getDeploymentName :: "Pod \<Rightarrow> string" where
  "getDeploymentName pod = getDeploymentName_owners (OwnerReferences pod)"

definition getARDeploymentName :: "Pod \<Rightarrow> Container \<Rightarrow> string \<Rightarrow> string" where
  "getARDeploymentName p c tmpl =
     (let res = tmpl;
          res = ReplaceAll res TmplNS (podNamespace p);
          res = ReplaceAll res TmplDN (getDeploymentName p);
          res = ReplaceAll res TmplCN (containerName c)
      in res)"

fun findStatus :: "ContainerStatus list \<Rightarrow> string \<Rightarrow> string option" where
  "findStatus [] name = None"
| "findStatus (st # sts) name =
     (if statusName st = name then Some (ExtractDigest (statusImageID st))
      else findStatus sts name)"

definition getContainerDigest :: "Pod \<Rightarrow> string \<Rightarrow> string" where
  "getContainerDigest pod name =
     (case findStatus (ContainerStatuses pod) name of
        Some d \<Rightarrow> d
      | None \<Rightarrow>
          (case findStatus (InitContainerStatuses pod) name of
             Some d \<Rightarrow> d
           | None \<Rightarrow> []))"

definition getCacheKey :: "string \<Rightarrow> string \<Rightarrow> string" where
  "getCacheKey dn digest = dn @ ''||'' @ digest"

subsection \<open>The controller and its surroundings\<close>

text \<open>What the cluster and the network answer: the pod objects behind pointers, the
  informer's indexer by key, the Deployment lookup by namespace and name, and the network's
  behaviour during the \<open>n\<close>-th call of PostOne.\<close>

datatype lookup = LookupError | Absent | NotAPod | PodObject Pod

datatype probe = Found | NotFound | ProbeError

record cluster =
  heap :: "nat \<Rightarrow> Pod"
  indexer :: "string \<Rightarrow> lookup"
  deployments :: "string \<Rightarrow> string \<Rightarrow> probe"
  net :: "nat \<Rightarrow> call_env"

text \<open>One call of PostOne as the controller saw it: the record sent, the error returned and
  the trace of sleeps and round trips.\<close>

record delivery =
  sent :: DeploymentRecord
  outcome :: "err option"
  events :: "event list"

text \<open>The controller: \<open>observedDeployments\<close> is a \<open>sync.Map\<close> whose values are always
  \<open>true\<close>, that is, a set of keys. \<open>deliveries\<close> is not a field of the Go struct: it logs
  every call of PostOne, most recent first, so that theorems can speak of the POSTs made.\<close>

record Controller =
  apiClient :: Client
  cfg :: Config
  observedDeployments :: "string set"
  deliveries :: "delivery list"

definition deploymentExists :: "cluster \<Rightarrow> string \<Rightarrow> string \<Rightarrow> bool" where
  "deploymentExists env namespace name =
     (case deployments env namespace name of
        NotFound \<Rightarrow> False
      | ProbeError \<Rightarrow> True
      | Found \<Rightarrow> True)"

definition recordContainer ::
  "cluster \<Rightarrow> Pod \<Rightarrow> Container \<Rightarrow> string \<Rightarrow> string \<Rightarrow> Controller \<Rightarrow> err option \<times> Controller" where
  "recordContainer env pod container status eventType c =
     (let dn = getARDeploymentName pod container (Template (cfg c));
          digest = getContainerDigest pod (containerName container)
      in if dn = [] \<or> digest = [] then (None, c)
         else
           (let cacheKey = getCacheKey dn digest
            in if status = StatusDeployed \<and> cacheKey \<in> observedDeployments c then (None, c)
               else if status = StatusDecommissioned \<and> cacheKey \<notin> observedDeployments c
               then (None, c)
               else if status \<noteq> StatusDeployed \<and> status \<noteq> StatusDecommissioned
               then (Some (InvalidStatus status), c)
               else
                 (let (imageName, version) = ExtractName (containerImage container);
                      record = NewDeploymentRecord imageName digest version
                                 (cfgLogicalEnvironment (cfg c)) (cfgPhysicalEnvironment (cfg c))
                                 (cfgCluster (cfg c)) status dn;
                      (perr, evs) = PostOne (apiClient c) (net env (length (deliveries c)))
                                      (Some record);
                      c1 = c\<lparr>deliveries :=
                               \<lparr>sent = record, outcome = perr, events = evs\<rparr> # deliveries c\<rparr>
                  in case perr of
                       Some e \<Rightarrow> if errorsAsClientError e then (None, c1) else (Some e, c1)
                     | None \<Rightarrow>
                         if status = StatusDeployed
                         then (None, c1\<lparr>observedDeployments :=
                                          insert cacheKey (observedDeployments c1)\<rparr>)
                         else if status = StatusDecommissioned
                         then (None, c1\<lparr>observedDeployments :=
                                          observedDeployments c1 - {cacheKey}\<rparr>)
                         else (Some (InvalidStatus status), c1))))"

text \<open>The two loops of processEvent over the containers: \<open>lastErr\<close> keeps the most recent
  error.\<close>

fun recordContainers ::
  "cluster \<Rightarrow> Pod \<Rightarrow> Container list \<Rightarrow> string \<Rightarrow> string \<Rightarrow> err option \<Rightarrow> Controller
     \<Rightarrow> err option \<times> Controller" where
  "recordContainers env pod [] status eventType lastErr c = (lastErr, c)"
| "recordContainers env pod (container # rest) status eventType lastErr c =
     (case recordContainer env pod container status eventType c of
        (Some e, c') \<Rightarrow> recordContainers env pod rest status eventType (Some e) c'
      | (None, c') \<Rightarrow> recordContainers env pod rest status eventType lastErr c')"

definition recordPod :: "cluster \<Rightarrow> Pod \<Rightarrow> string \<Rightarrow> Controller \<Rightarrow> err option \<times> Controller" where
  "recordPod env pod eventType c =
     (let status = (if eventType = EventDeleted then StatusDecommissioned else StatusDeployed);
          (lastErr, c1) = recordContainers env pod (Containers pod) status eventType None c
      in recordContainers env pod (InitContainers pod) status eventType lastErr c1)"

definition processEvent :: "cluster \<Rightarrow> PodEvent \<Rightarrow> Controller \<Rightarrow> err option \<times> Controller" where
  "processEvent env event c =
     (if EventType event = EventDeleted then
        (case DeletedPod event of
           None \<Rightarrow> (None, c)
         | Some a \<Rightarrow>
             (let pod = heap env a;
                  deploymentName = getDeploymentName pod
              in if deploymentName \<noteq> [] \<and> deploymentExists env (podNamespace pod) deploymentName
                 then (None, c)
                 else recordPod env pod (EventType event) c))
      else
        (case indexer env (Key event) of
           LookupError \<Rightarrow> (None, c)
         | Absent \<Rightarrow> (None, c)
         | NotAPod \<Rightarrow> (None, c)
         | PodObject pod \<Rightarrow> recordPod env pod (EventType event) c))"

subsection \<open>The informer's event handlers\<close>

text \<open>What the informer hands to a handler: a pointer to a pod, a tombstone
  (\<open>DeletedFinalStateUnknown\<close>) holding another object, or something else.
  \<open>cache.MetaNamespaceKeyFunc\<close> belongs to the client library and is taken as a parameter;
  \<open>None\<close> is its error.\<close>

datatype obj = PodPtr nat | Tombstone obj | Other

definition AddFunc :: "(obj \<Rightarrow> string option) \<Rightarrow> cluster \<Rightarrow> obj \<Rightarrow> PodEvent option" where
  "AddFunc keyFunc env ob =
     (case ob of
        PodPtr a \<Rightarrow>
          (let pod = heap env a
           in if Phase pod = PodRunning \<and> getDeploymentName pod \<noteq> [] then
                (case keyFunc ob of
                   Some key \<Rightarrow> Some \<lparr>Key = key, EventType = EventCreated, DeletedPod = None\<rparr>
                 | None \<Rightarrow> None)
              else None)
      | _ \<Rightarrow> None)"

definition UpdateFunc :: "(obj \<Rightarrow> string option) \<Rightarrow> cluster \<Rightarrow> obj \<Rightarrow> obj \<Rightarrow> PodEvent option" where
  "UpdateFunc keyFunc env oldObj newObj =
     (case oldObj of
        PodPtr a \<Rightarrow>
          (case newObj of
             PodPtr b \<Rightarrow>
               (let oldPod = heap env a; newPod = heap env b
                in if DeletionTimestamp newPod \<noteq> None \<or> getDeploymentName newPod = [] then None
                   else if Phase oldPod \<noteq> PodRunning \<and> Phase newPod = PodRunning then
                     (case keyFunc newObj of
                        Some key \<Rightarrow> Some \<lparr>Key = key, EventType = EventCreated, DeletedPod = None\<rparr>
                      | None \<Rightarrow> None)
                   else None)
           | _ \<Rightarrow> None)
      | _ \<Rightarrow> None)"

definition DeleteFunc :: "(obj \<Rightarrow> string option) \<Rightarrow> cluster \<Rightarrow> obj \<Rightarrow> PodEvent option" where
  "DeleteFunc keyFunc env ob =
     (let ptr = (case ob of
                   PodPtr a \<Rightarrow> Some a
                 | Tombstone (PodPtr a) \<Rightarrow> Some a
                 | _ \<Rightarrow> None)
      in case ptr of
           None \<Rightarrow> None
         | Some a \<Rightarrow>
             if getDeploymentName (heap env a) = [] then None
             else
               (case keyFunc ob of
                  Some key \<Rightarrow> Some \<lparr>Key = key, EventType = EventDeleted, DeletedPod = Some a\<rparr>
                | None \<Rightarrow> None))"

section \<open>Notions used to state the properties\<close>

text \<open>The HTTP round trips of a trace, by attempt number.\<close>

fun calls :: "event list \<Rightarrow> nat list" where
  "calls [] = []"
| "calls (Sleep d # evs) = calls evs"
| "calls (Call k # evs) = k # calls evs"

text \<open>The classification of one round trip: a reply that neither ends the loop with success
  (2xx) nor with a permanent client error (4xx other than 429) is a soft failure, and
  \<open>replyErr\<close> is the error the loop remembers for it.\<close>

definition softFail :: "http_reply \<Rightarrow> bool" where
  "softFail r =
     (case r of
        NetworkError \<Rightarrow> True
      | Response code \<Rightarrow>
          \<not> (200 \<le> code \<and> code < 300) \<and> \<not> (400 \<le> code \<and> code < 500 \<and> code \<noteq> 429))"

definition replyErr :: "http_reply \<Rightarrow> err" where
  "replyErr r = (case r of NetworkError \<Rightarrow> PostRequestFailed | Response code \<Rightarrow> UnexpectedStatus code)"

text \<open>Attempt \<open>k\<close> is not cut short by a cancelled context, a request that cannot be built or
  a token that cannot be fetched.\<close>

definition undisturbed :: "Client \<Rightarrow> call_env \<Rightarrow> nat \<Rightarrow> bool" where
  "undisturbed c env k =
     (let a = attemptEnv env k
      in \<not> (0 < k \<and> ctxDone a) \<and> \<not> requestErr a \<and> \<not> (transport c \<and> tokenErr a))"

text \<open>The number of iterations of the attempt loop.\<close>

definition attemptBudget :: "Client \<Rightarrow> nat" where
  "attemptBudget c = nat (wrap64 (retries c + 1))"

text \<open>Whether an error value is itself a \<open>*ClientError\<close>.\<close>

fun isClientError :: "err \<Rightarrow> bool" where
  "isClientError (ClientError e) = True"
| "isClientError e = False"

text \<open>The calls of PostOne made between two controller states, most recent first.\<close>

definition newDeliveries :: "Controller \<Rightarrow> Controller \<Rightarrow> delivery list" where
  "newDeliveries c c' = take (length (deliveries c') - length (deliveries c)) (deliveries c')"

definition keyOf :: "delivery \<Rightarrow> string" where
  "keyOf d = getCacheKey (DeploymentName (sent d)) (Digest (sent d))"

text \<open>What a delivery posted: the status, the reported deployment name and the digest of the
  record sent.\<close>

definition posted :: "delivery \<Rightarrow> string \<times> string \<times> string" where
  "posted d = (Status (sent d), DeploymentName (sent d), Digest (sent d))"

text \<open>A delivery that failed with an error other than a client error.\<close>

definition requeueing :: "delivery \<Rightarrow> bool" where
  "requeueing d = (case outcome d of None \<Rightarrow> False | Some e \<Rightarrow> \<not> isClientError e)"

text \<open>The status of the most recent successful delivery under a cache key.\<close>

fun lastDelivered :: "string \<Rightarrow> delivery list \<Rightarrow> string option" where
  "lastDelivered k [] = None"
| "lastDelivered k (d # ds) =
     (if outcome d = None \<and> keyOf d = k then Some (Status (sent d)) else lastDelivered k ds)"

text \<open>A sequence of executions of recordContainer, each with its own pod, container, status
  and event type.\<close>

fun runAll ::
  "cluster \<Rightarrow> (Pod \<times> Container \<times> string \<times> string) list \<Rightarrow> Controller \<Rightarrow> Controller" where
  "runAll env [] c = c"
| "runAll env ((pod, container, status, eventType) # rest) c =
     runAll env rest (snd (recordContainer env pod container status eventType c))"

text \<open>Every call of PostOne the controller makes succeeds.\<close>

definition allDelivered :: "cluster \<Rightarrow> Controller \<Rightarrow> bool" where
  "allDelivered env c = (\<forall>n r. fst (PostOne (apiClient c) (net env n) (Some r)) = None)"

text \<open>The work items a handler of the informer can put on the queue.\<close>

definition enqueued :: "(obj \<Rightarrow> string option) \<Rightarrow> cluster \<Rightarrow> PodEvent \<Rightarrow> bool" where
  "enqueued keyFunc env e =
     ((\<exists>x. AddFunc keyFunc env x = Some e) \<or> (\<exists>x y. UpdateFunc keyFunc env x y = Some e)
      \<or> (\<exists>x. DeleteFunc keyFunc env x = Some e))"

text \<open>The identity of a container as recordContainer derives it: the reported deployment
  name, the digest, the cache key made of both, and the record it builds for a status.\<close>

definition reportedName :: "Controller \<Rightarrow> Pod \<Rightarrow> Container \<Rightarrow> string" where
  "reportedName c pod container = getARDeploymentName pod container (Template (cfg c))"

definition digestOf :: "Pod \<Rightarrow> Container \<Rightarrow> string" where
  "digestOf pod container = getContainerDigest pod (containerName container)"

definition identityKey :: "Controller \<Rightarrow> Pod \<Rightarrow> Container \<Rightarrow> string" where
  "identityKey c pod container = getCacheKey (reportedName c pod container) (digestOf pod container)"

definition builtRecord :: "Controller \<Rightarrow> Pod \<Rightarrow> Container \<Rightarrow> string \<Rightarrow> DeploymentRecord" where
  "builtRecord c pod container status =
     NewDeploymentRecord (fst (ExtractName (containerImage container))) (digestOf pod container)
       (snd (ExtractName (containerImage container)))
       (cfgLogicalEnvironment (cfg c)) (cfgPhysicalEnvironment (cfg c)) (cfgCluster (cfg c))
       status (reportedName c pod container)"

text \<open>The events of attempt \<open>k\<close> when nothing cuts it short: the backoff sleep, for every
  attempt but the first, and then the round trip.\<close>

definition attemptEvents :: "call_env \<Rightarrow> nat \<Rightarrow> event list" where
  "attemptEvents env k =
     (if 0 < k then [Sleep (backoffDelay (floatOverflow env) k (rnd (attemptEnv env k)))] else [])
     @ [Call k]"

section \<open>Example inputs\<close>

definition exClient :: Client where
  "exClient =
     \<lparr> baseURL = ''https://api.github.com'', org = ''my-org'', timeout = 5 * Second,
       retries = 3, apiToken = [], transport = False, rateLimit = 20, rateBurst = 50 \<rparr>"

definition exConfig :: Config where
  "exConfig =
     \<lparr> Template = ''{{namespace}}/{{deploymentName}}/{{containerName}}'',
       cfgLogicalEnvironment = ''staging'', cfgPhysicalEnvironment = ''eu-1'',
       cfgCluster = ''c1'' \<rparr>"

definition exContainer :: Container where
  "exContainer = \<lparr> containerName = ''app'', containerImage = ''nginx:1.21'' \<rparr>"

definition exPod :: Pod where
  "exPod =
     \<lparr> podName = ''web-7f9c9b6d8-x2x5k'', podNamespace = ''prod'',
       OwnerReferences = [\<lparr> ownerKind = ''ReplicaSet'', ownerName = ''web-7f9c9b6d8'' \<rparr>],
       DeletionTimestamp = None, Phase = ''Running'',
       Containers = [exContainer], InitContainers = [],
       ContainerStatuses = [\<lparr> statusName = ''app'', statusImageID = ''docker://sha256:aaaa'' \<rparr>],
       InitContainerStatuses = [] \<rparr>"

definition exRecord :: DeploymentRecord where
  "exRecord =
     NewDeploymentRecord ''nginx'' ''sha256:aaaa'' ''1.21'' ''staging'' ''eu-1'' ''c1''
       StatusDeployed ''prod/web/app''"

text \<open>An attempt in which the server answers with the given status code, and a call in which
  it answers every attempt with the status the given function chooses.\<close>

definition answering :: "int \<Rightarrow> attempt_env" where
  "answering code =
     \<lparr> ctxDone = False, requestErr = False, tokenErr = False, reply = Response code, rnd = 7 \<rparr>"

definition serving :: "(nat \<Rightarrow> int) \<Rightarrow> call_env" where
  "serving f = \<lparr> limiterErr = False, floatOverflow = 0, attemptEnv = (\<lambda>k. answering (f k)) \<rparr>"

text \<open>A cluster in which the Deployment lookup gives a fixed answer and the network serves
  each call as the given function says.\<close>

definition exCluster :: "probe \<Rightarrow> (nat \<Rightarrow> call_env) \<Rightarrow> cluster" where
  "exCluster p nw =
     \<lparr> heap = (\<lambda>a. exPod), indexer = (\<lambda>k. PodObject exPod), deployments = (\<lambda>ns n. p),
       net = nw \<rparr>"

definition exController :: Controller where
  "exController =
     \<lparr> apiClient = exClient, cfg = exConfig, observedDeployments = {}, deliveries = [] \<rparr>"

definition exKeyFunc :: "obj \<Rightarrow> string option" where
  "exKeyFunc ob = (case ob of PodPtr a \<Rightarrow> Some ''prod/web-7f9c9b6d8-x2x5k'' | _ \<Rightarrow> None)"

text \<open>The same pod with a second container, and a cluster that holds it.\<close>

definition exSidecar :: Container where
  "exSidecar = \<lparr> containerName = ''sidecar'', containerImage = ''envoy:v1.30'' \<rparr>"

definition exPod2 :: Pod where
  "exPod2 =
     exPod\<lparr> Containers := [exContainer, exSidecar],
            ContainerStatuses :=
              [\<lparr> statusName = ''app'', statusImageID = ''docker://sha256:aaaa'' \<rparr>,
               \<lparr> statusName = ''sidecar'',
                 statusImageID = ''docker-pullable://envoy@sha256:bbbb'' \<rparr>] \<rparr>"

definition exCluster2 :: "probe \<Rightarrow> (nat \<Rightarrow> call_env) \<Rightarrow> cluster" where
  "exCluster2 p nw =
     \<lparr> heap = (\<lambda>a. exPod2), indexer = (\<lambda>k. PodObject exPod2), deployments = (\<lambda>ns n. p),
       net = nw \<rparr>"

section \<open>Facts about the example inputs\<close>

lemma exPod_deployment_name: "getDeploymentName exPod = ''web''"
  by code_simp

lemma exPod_reported_name:
  "getARDeploymentName exPod exContainer (Template exConfig) = ''prod/web/app''"
  by code_simp

lemma exPod_digest: "getContainerDigest exPod (containerName exContainer) = ''sha256:aaaa''"
  by code_simp

section \<open>Record construction\<close>

text \<open>C10: NewDeploymentRecord never fails. A status that is neither \<open>deployed\<close> nor
  \<open>decommissioned\<close> is silently replaced by \<open>deployed\<close>, so the status of every record it
  returns is one of the two constants, and every other field is the corresponding argument,
  unchanged.\<close>

theorem NewDeploymentRecord_total:
  "Status (NewDeploymentRecord n d v le pe cl st dn)
     = (if st = StatusDeployed \<or> st = StatusDecommissioned then st else StatusDeployed)
   \<and> (Status (NewDeploymentRecord n d v le pe cl st dn) = StatusDeployed
      \<or> Status (NewDeploymentRecord n d v le pe cl st dn) = StatusDecommissioned)
   \<and> Name (NewDeploymentRecord n d v le pe cl st dn) = n
   \<and> Digest (NewDeploymentRecord n d v le pe cl st dn) = d
   \<and> Version (NewDeploymentRecord n d v le pe cl st dn) = v
   \<and> LogicalEnvironment (NewDeploymentRecord n d v le pe cl st dn) = le
   \<and> PhysicalEnvironment (NewDeploymentRecord n d v le pe cl st dn) = pe
   \<and> Cluster (NewDeploymentRecord n d v le pe cl st dn) = cl
   \<and> DeploymentName (NewDeploymentRecord n d v le pe cl st dn) = dn"
  by (simp add: NewDeploymentRecord_def)

theorem NewDeploymentRecord_total_witness:
  "Status (NewDeploymentRecord ''nginx'' ''sha256:aaaa'' ''1.21'' ''staging'' ''eu-1'' ''c1''
       ''removed'' ''prod/web/app'') = ''deployed''
   \<and> DeploymentName (NewDeploymentRecord ''nginx'' ''sha256:aaaa'' ''1.21'' ''staging'' ''eu-1''
       ''c1'' ''removed'' ''prod/web/app'') = ''prod/web/app''"
  using NewDeploymentRecord_total [of "''nginx''" "''sha256:aaaa''" "''1.21''" "''staging''"
      "''eu-1''" "''c1''" "''removed''" "''prod/web/app''"]
  by (simp add: StatusDeployed_def StatusDecommissioned_def)

section \<open>Digest extraction\<close>

text \<open>C7: for an input that contains \<open>sha256:\<close>, ExtractDigest is to return the substring
  from the first occurrence up to the next \<open>@\<close>, space or the end. The loop bound
  \<open>i < len(imageID)-7\<close> stops one position early: when the only occurrence is the last seven
  bytes of the input, the marker is not found and the input comes back unchanged. Here the
  input \<open>docker://sha256:\<close> contains the marker at offset 9, the contract asks for
  \<open>sha256:\<close>, and the code returns the whole input.\<close>

theorem ExtractDigest_trailing_marker:
  "Index ''docker://sha256:'' ''sha256:'' = Some 9
   \<and> spec_ExtractDigest ''docker://sha256:'' = ''sha256:''
   \<and> ExtractDigest ''docker://sha256:'' = ''docker://sha256:''"
  by (simp add: ExtractDigest_def digestLoop.simps spec_ExtractDigest_def HasPrefix_def)

section \<open>Client construction\<close>

text \<open>C9: NewClient is to return an error for an \<open>http://\<close> base URL that does not target a
  recognized local or in-cluster host. The code tests the URL text for the prefixes
  \<open>http://localhost\<close> and \<open>http://127.0.0.1\<close> and for the substring
  \<open>.svc.cluster.local\<close>, not the host: the URL \<open>http://localhost.evil.example\<close>, whose host
  is \<open>localhost.evil.example\<close>, is accepted and a client is returned.\<close>

theorem NewClient_accepts_lookalike_host:
  "HasPrefix ''http://localhost.evil.example'' ''http://''
   \<and> spec_host ''http://localhost.evil.example'' = ''localhost.evil.example''
   \<and> \<not> spec_targetsLocalHost ''http://localhost.evil.example''
   \<and> spec_NewClientFails ''http://localhost.evil.example'' ''my-org''
   \<and> NewClient ''http://localhost.evil.example'' ''my-org'' []
       = Returned (exClient\<lparr>baseURL := ''http://localhost.evil.example''\<rparr>)"
  by (simp add: NewClient_def HasPrefix_def isLocal_def validOrgPattern_def orgChar_def
      spec_NewClientFails_def spec_targetsLocalHost_def spec_host_def HasSuffix_def exClient_def)

section \<open>Scale-down detection\<close>

text \<open>C5: a Deleted work item whose captured pod resolves to a workload name, while the
  owning Deployment still exists or the lookup fails with an error other than not-found, is
  processed successfully without any call of PostOne and without any change of the dedup
  cache: processEvent returns nil and the controller is unchanged.\<close>

theorem processEvent_scale_down:
  assumes "EventType event = EventDeleted"
    and "DeletedPod event = Some a"
    and "getDeploymentName (heap env a) \<noteq> []"
    and "deployments env (podNamespace (heap env a)) (getDeploymentName (heap env a)) \<noteq> NotFound"
  shows "processEvent env event c = (None, c)"
proof -
  have "deploymentExists env (podNamespace (heap env a)) (getDeploymentName (heap env a))"
    using assms(4) by (simp add: deploymentExists_def split: probe.splits)
  with assms(1-3) show ?thesis
    by (simp add: processEvent_def Let_def)
qed

theorem processEvent_scale_down_witness:
  "processEvent (exCluster Found (\<lambda>n. serving (\<lambda>k. 200)))
       \<lparr>Key = ''prod/web-7f9c9b6d8-x2x5k'', EventType = EventDeleted, DeletedPod = Some 0\<rparr>
       (exController\<lparr>observedDeployments := {''prod/web/app||sha256:aaaa''}\<rparr>)
     = (None, exController\<lparr>observedDeployments := {''prod/web/app||sha256:aaaa''}\<rparr>)
   \<and> processEvent (exCluster ProbeError (\<lambda>n. serving (\<lambda>k. 200)))
       \<lparr>Key = ''prod/web-7f9c9b6d8-x2x5k'', EventType = EventDeleted, DeletedPod = Some 0\<rparr>
       (exController\<lparr>observedDeployments := {''prod/web/app||sha256:aaaa''}\<rparr>)
     = (None, exController\<lparr>observedDeployments := {''prod/web/app||sha256:aaaa''}\<rparr>)"
  using processEvent_scale_down
      [of "\<lparr>Key = ''prod/web-7f9c9b6d8-x2x5k'', EventType = EventDeleted, DeletedPod = Some 0\<rparr>"
        0 "exCluster Found (\<lambda>n. serving (\<lambda>k. 200))"]
    processEvent_scale_down
      [of "\<lparr>Key = ''prod/web-7f9c9b6d8-x2x5k'', EventType = EventDeleted, DeletedPod = Some 0\<rparr>"
        0 "exCluster ProbeError (\<lambda>n. serving (\<lambda>k. 200))"]
  by (simp add: exCluster_def exPod_deployment_name)

section \<open>Identity of work items\<close>

lemma AddFunc_event:
  "AddFunc kf env x = Some e \<Longrightarrow> EventType e = EventCreated \<and> DeletedPod e = None"
  by (cases x) (auto simp: AddFunc_def Let_def split: option.splits if_splits)

lemma UpdateFunc_event:
  "UpdateFunc kf env x y = Some e \<Longrightarrow> EventType e = EventCreated \<and> DeletedPod e = None"
  by (cases x; cases y) (auto simp: UpdateFunc_def Let_def split: option.splits if_splits)

lemma DeleteFunc_event:
  "DeleteFunc kf env x = Some e \<Longrightarrow> EventType e = EventDeleted \<and> DeletedPod e \<noteq> None"
  by (auto simp: DeleteFunc_def Let_def split: option.splits if_splits)

lemma enqueued_created:
  assumes "enqueued kf env e" and "EventType e = EventCreated"
  shows "DeletedPod e = None"
proof -
  have "EventCreated \<noteq> EventDeleted"
    by (simp add: EventCreated_def EventDeleted_def)
  then show ?thesis
    using assms AddFunc_event UpdateFunc_event DeleteFunc_event
    unfolding enqueued_def by metis
qed

text \<open>C8, as the code has it: two work items are the same item for the queue exactly when
  they agree on Key, EventType and the DeletedPod pointer. For the Created items the handlers
  enqueue, the pointer is always nil and Key and EventType alone decide; a Deleted item also
  carries the address of the captured pod object, and two Deleted items with the same key
  are the same item only when they captured the same object.\<close>

theorem PodEvent_identity:
  fixes a b :: PodEvent
  shows "((a = b) = (Key a = Key b \<and> EventType a = EventType b \<and> DeletedPod a = DeletedPod b))
    \<and> (enqueued kf env a \<and> enqueued kf env b \<and> EventType a = EventCreated
        \<longrightarrow> (a = b) = (Key a = Key b \<and> EventType a = EventType b))"
proof -
  have one: "(a = b) = (Key a = Key b \<and> EventType a = EventType b \<and> DeletedPod a = DeletedPod b)"
    by auto
  have two: "(a = b) = (Key a = Key b \<and> EventType a = EventType b)"
    if "enqueued kf env a" "enqueued kf env b" "EventType a = EventCreated"
  proof -
    have "DeletedPod a = None" using that enqueued_created by blast
    moreover have "EventType a = EventType b \<Longrightarrow> DeletedPod b = None"
      using that enqueued_created by metis
    ultimately show ?thesis using one by auto
  qed
  show ?thesis using one two by blast
qed

text \<open>Two running pods of the example workload, at different addresses but under the same
  key, give the same Created item.\<close>

theorem PodEvent_identity_witness:
  "AddFunc exKeyFunc (exCluster Found (\<lambda>n. serving (\<lambda>k. 200))) (PodPtr 1)
     = Some \<lparr>Key = ''prod/web-7f9c9b6d8-x2x5k'', EventType = EventCreated, DeletedPod = None\<rparr>
   \<and> AddFunc exKeyFunc (exCluster Found (\<lambda>n. serving (\<lambda>k. 200))) (PodPtr 2)
     = Some \<lparr>Key = ''prod/web-7f9c9b6d8-x2x5k'', EventType = EventCreated, DeletedPod = None\<rparr>
   \<and> (\<lparr>Key = ''prod/web-7f9c9b6d8-x2x5k'', EventType = EventCreated, DeletedPod = None\<rparr>
        = \<lparr>Key = ''prod/web-7f9c9b6d8-x2x5k'', EventType = EventCreated, DeletedPod = None\<rparr>)
     = (Key \<lparr>Key = ''prod/web-7f9c9b6d8-x2x5k'', EventType = EventCreated, DeletedPod = None\<rparr>
          = ''prod/web-7f9c9b6d8-x2x5k''
        \<and> EventType \<lparr>Key = ''prod/web-7f9c9b6d8-x2x5k'', EventType = EventCreated,
             DeletedPod = None\<rparr> = EventCreated)"
proof -
  let ?env = "exCluster Found (\<lambda>n. serving (\<lambda>k. 200))"
  let ?e = "\<lparr>Key = ''prod/web-7f9c9b6d8-x2x5k'', EventType = EventCreated, DeletedPod = None\<rparr>"
  have add: "AddFunc exKeyFunc ?env (PodPtr a) = Some ?e" for a
    by (simp add: AddFunc_def exKeyFunc_def exCluster_def exPod_deployment_name)
      (simp add: exPod_def PodRunning_def)
  have enq: "enqueued exKeyFunc ?env ?e"
    unfolding enqueued_def using add by blast
  show ?thesis
    using PodEvent_identity [of ?e ?e exKeyFunc ?env] enq add by simp
qed

text \<open>The claim as stated fails for Deleted items: the same key deleted twice, with two
  captured pod objects, gives two different work items.\<close>

theorem PodEvent_identity_counterexample:
  "DeleteFunc exKeyFunc (exCluster NotFound (\<lambda>n. serving (\<lambda>k. 200))) (PodPtr 1)
     = Some \<lparr>Key = ''prod/web-7f9c9b6d8-x2x5k'', EventType = EventDeleted, DeletedPod = Some 1\<rparr>
   \<and> DeleteFunc exKeyFunc (exCluster NotFound (\<lambda>n. serving (\<lambda>k. 200))) (PodPtr 2)
     = Some \<lparr>Key = ''prod/web-7f9c9b6d8-x2x5k'', EventType = EventDeleted, DeletedPod = Some 2\<rparr>
   \<and> \<lparr>Key = ''prod/web-7f9c9b6d8-x2x5k'', EventType = EventDeleted, DeletedPod = Some 1\<rparr>
     \<noteq> \<lparr>Key = ''prod/web-7f9c9b6d8-x2x5k'', EventType = EventDeleted, DeletedPod = Some (2::nat)\<rparr>"
  by (simp add: DeleteFunc_def exKeyFunc_def exCluster_def exPod_deployment_name)

section \<open>The attempt loop of PostOne\<close>

lemma calls_append: "calls (xs @ ys) = calls xs @ calls ys"
  by (induction xs rule: calls.induct) auto

lemma fst_after: "fst (after evs p) = fst p"
  by (cases p) simp

lemma snd_after: "snd (after evs p) = evs @ snd p"
  by (cases p) simp

lemma attemptLoop_step:
  assumes "undisturbed c env k"
  shows "attemptLoop c env (Suc n) k le =
     (case reply (attemptEnv env k) of
        NetworkError \<Rightarrow>
          after ((if 0 < k then [Sleep (backoffDelay (floatOverflow env) k (rnd (attemptEnv env k)))]
                  else []) @ [Call k])
            (attemptLoop c env n (Suc k) (Some PostRequestFailed))
      | Response code \<Rightarrow>
          if 200 \<le> code \<and> code < 300
          then (None, (if 0 < k then [Sleep (backoffDelay (floatOverflow env) k (rnd (attemptEnv env k)))]
                  else []) @ [Call k])
          else if 400 \<le> code \<and> code < 500 \<and> code \<noteq> 429
          then (Some (ClientError (UnexpectedStatus code)),
                (if 0 < k then [Sleep (backoffDelay (floatOverflow env) k (rnd (attemptEnv env k)))]
                  else []) @ [Call k])
          else after ((if 0 < k then [Sleep (backoffDelay (floatOverflow env) k (rnd (attemptEnv env k)))]
                  else []) @ [Call k])
            (attemptLoop c env n (Suc k) (Some (UnexpectedStatus code))))"
proof -
  have a: "\<not> (0 < k \<and> ctxDone (attemptEnv env k))" "\<not> requestErr (attemptEnv env k)"
    "\<not> (transport c \<and> tokenErr (attemptEnv env k))"
    using assms by (simp_all add: undisturbed_def Let_def)
  show ?thesis
    unfolding attemptLoop.simps Let_def using a by (simp only: if_False)
qed

lemma calls_slept: "calls ((if 0 < k then [Sleep d] else []) @ [Call k]) = [k]"
  by simp

lemma attemptLoop_soft:
  assumes "undisturbed c env k" and "softFail (reply (attemptEnv env k))"
  shows "fst (attemptLoop c env (Suc n) k le)
           = fst (attemptLoop c env n (Suc k) (Some (replyErr (reply (attemptEnv env k)))))"
    and "calls (snd (attemptLoop c env (Suc n) k le))
           = k # calls (snd (attemptLoop c env n (Suc k) (Some (replyErr (reply (attemptEnv env k))))))"
proof -
  show "fst (attemptLoop c env (Suc n) k le)
           = fst (attemptLoop c env n (Suc k) (Some (replyErr (reply (attemptEnv env k)))))"
  proof (cases "reply (attemptEnv env k)")
    case NetworkError
    then show ?thesis
      by (simp add: attemptLoop_step [OF assms(1)] replyErr_def fst_after del: attemptLoop.simps)
  next
    case (Response code)
    then have "\<not> (200 \<le> code \<and> code < 300)" "\<not> (400 \<le> code \<and> code < 500 \<and> code \<noteq> 429)"
      using assms(2) by (simp_all add: softFail_def)
    with Response show ?thesis
      by (auto simp add: attemptLoop_step [OF assms(1)] replyErr_def fst_after
          simp del: attemptLoop.simps)
  qed
  show "calls (snd (attemptLoop c env (Suc n) k le))
           = k # calls (snd (attemptLoop c env n (Suc k) (Some (replyErr (reply (attemptEnv env k))))))"
  proof (cases "reply (attemptEnv env k)")
    case NetworkError
    then show ?thesis
      by (simp add: attemptLoop_step [OF assms(1)] replyErr_def snd_after calls_append
          del: attemptLoop.simps)
  next
    case (Response code)
    then have "\<not> (200 \<le> code \<and> code < 300)" "\<not> (400 \<le> code \<and> code < 500 \<and> code \<noteq> 429)"
      using assms(2) by (simp_all add: softFail_def)
    with Response show ?thesis
      by (auto simp add: attemptLoop_step [OF assms(1)] replyErr_def snd_after calls_append
          simp del: attemptLoop.simps)
  qed
qed

lemma attemptLoop_success:
  assumes "undisturbed c env k" and "reply (attemptEnv env k) = Response code"
    and "200 \<le> code" and "code < 300"
  shows "fst (attemptLoop c env (Suc n) k le) = None"
    and "calls (snd (attemptLoop c env (Suc n) k le)) = [k]"
  using assms(2-4) by (simp_all add: attemptLoop_step [OF assms(1)] del: attemptLoop.simps)

lemma attemptLoop_permanent:
  assumes "undisturbed c env k" and "reply (attemptEnv env k) = Response code"
    and "400 \<le> code" and "code < 500" and "code \<noteq> 429"
  shows "fst (attemptLoop c env (Suc n) k le) = Some (ClientError (UnexpectedStatus code))"
    and "calls (snd (attemptLoop c env (Suc n) k le)) = [k]"
  using assms(2-5) by (simp_all add: attemptLoop_step [OF assms(1)] del: attemptLoop.simps)


lemma attemptLoop_run:
  assumes "\<forall>j<m. undisturbed c env (k + j) \<and> softFail (reply (attemptEnv env (k + j)))"
  shows "fst (attemptLoop c env (m + n) k le)
           = fst (attemptLoop c env n (k + m)
                   (if m = 0 then le else Some (replyErr (reply (attemptEnv env (k + m - 1))))))
         \<and> calls (snd (attemptLoop c env (m + n) k le))
           = [k..<k + m] @ calls (snd (attemptLoop c env n (k + m)
                   (if m = 0 then le else Some (replyErr (reply (attemptEnv env (k + m - 1)))))))"
  using assms
proof (induction m arbitrary: k le)
  case 0
  show ?case by simp
next
  case (Suc m)
  have head: "undisturbed c env k" "softFail (reply (attemptEnv env k))"
    using Suc.prems [rule_format, of 0] by simp_all
  have rest: "\<forall>j<m. undisturbed c env (Suc k + j) \<and> softFail (reply (attemptEnv env (Suc k + j)))"
  proof (intro allI impI)
    fix j assume "j < m"
    then have "Suc j < Suc m" by simp
    from Suc.prems [rule_format, OF this]
    show "undisturbed c env (Suc k + j) \<and> softFail (reply (attemptEnv env (Suc k + j)))"
      by simp
  qed
  note ih = Suc.IH [OF rest, of "Some (replyErr (reply (attemptEnv env k)))"]
  have le': "(if m = 0 then Some (replyErr (reply (attemptEnv env k)))
             else Some (replyErr (reply (attemptEnv env (Suc k + m - 1)))))
           = Some (replyErr (reply (attemptEnv env (k + Suc m - 1))))"
    by (cases m) simp_all
  have upt: "[k..<k + Suc m] = k # [Suc k..<Suc k + m]"
    by (simp add: upt_conv_Cons)
  have step: "Suc m + n = Suc (m + n)" by simp
  show ?case
    unfolding step attemptLoop_soft [OF head] upt
    using ih le' by (simp del: attemptLoop.simps)
qed


lemma attemptLoop_calls_bound:
  "length (calls (snd (attemptLoop c env n k le))) \<le> n"
proof (induction n arbitrary: k le)
  case 0
  show ?case by simp
next
  case (Suc n)
  show ?case
    using Suc.IH
    by (simp add: Let_def snd_after calls_append split: http_reply.splits)
qed

lemma PostOne_loop:
  "\<not> limiterErr env \<Longrightarrow> PostOne c env (Some r) = attemptLoop c env (attemptBudget c) 0 None"
  by (simp add: PostOne_def attemptBudget_def)

lemma PostOne_final:
  assumes lim: "\<not> limiterErr env"
    and k: "k < attemptBudget c"
    and und: "\<forall>j\<le>k. undisturbed c env j"
    and soft: "\<forall>j<k. softFail (reply (attemptEnv env j))"
    and rep: "reply (attemptEnv env k) = Response code"
  shows "200 \<le> code \<and> code < 300 \<longrightarrow>
           fst (PostOne c env (Some r)) = None \<and> calls (snd (PostOne c env (Some r))) = [0..<Suc k]"
    and "400 \<le> code \<and> code < 500 \<and> code \<noteq> 429 \<longrightarrow>
           fst (PostOne c env (Some r)) = Some (ClientError (UnexpectedStatus code))
           \<and> calls (snd (PostOne c env (Some r))) = [0..<Suc k]"
proof -
  obtain n where n: "attemptBudget c = k + Suc n"
    using k less_imp_Suc_add by auto
  have pre: "\<forall>j<k. undisturbed c env (0 + j) \<and> softFail (reply (attemptEnv env (0 + j)))"
    using und soft by simp
  have uk: "undisturbed c env k" using und by simp
  note run = attemptLoop_run [OF pre, of "Suc n" None]
  show "200 \<le> code \<and> code < 300 \<longrightarrow>
           fst (PostOne c env (Some r)) = None \<and> calls (snd (PostOne c env (Some r))) = [0..<Suc k]"
    using run attemptLoop_success [OF uk rep, of n]
    by (simp add: PostOne_loop [OF lim] n del: attemptLoop.simps)
  show "400 \<le> code \<and> code < 500 \<and> code \<noteq> 429 \<longrightarrow>
           fst (PostOne c env (Some r)) = Some (ClientError (UnexpectedStatus code))
           \<and> calls (snd (PostOne c env (Some r))) = [0..<Suc k]"
    using run attemptLoop_permanent [OF uk rep, of n]
    by (simp add: PostOne_loop [OF lim] n del: attemptLoop.simps)
qed

lemma PostOne_exhausted:
  assumes lim: "\<not> limiterErr env"
    and all: "\<forall>j<attemptBudget c. undisturbed c env j \<and> softFail (reply (attemptEnv env j))"
  shows "fst (PostOne c env (Some r))
           = Some (AllRetriesExhausted
               (if attemptBudget c = 0 then None
                else Some (replyErr (reply (attemptEnv env (attemptBudget c - 1))))))
         \<and> calls (snd (PostOne c env (Some r))) = [0..<attemptBudget c]"
proof -
  have pre: "\<forall>j<attemptBudget c.
      undisturbed c env (0 + j) \<and> softFail (reply (attemptEnv env (0 + j)))"
    using all by simp
  show ?thesis
    using attemptLoop_run [OF pre, of 0 None]
    by (cases "attemptBudget c = 0") (simp_all add: PostOne_loop [OF lim] del: attemptLoop.simps(2))
qed

lemma attemptBudget_retries:
  assumes "- 1 \<le> retries c" and "retries c < 2 ^ 63 - 1"
  shows "int (attemptBudget c) = retries c + 1"
proof -
  have "wrap64 (retries c + 1) = retries c + 1"
    using assms by (simp add: wrap64_def)
  then show ?thesis using assms by (simp add: attemptBudget_def)
qed

text \<open>C3: PostOne makes at most \<open>retries + 1\<close> HTTP round trips (the loop runs
  \<open>attemptBudget\<close> times, which is \<open>retries + 1\<close> for every \<open>retries\<close> from \<open>-1\<close> up
  to the largest \<open>int\<close> but one). When no attempt is cut short by cancellation or by a
  failure to build or authorize the request: the first 2xx reply ends the call with nil;
  the first 4xx reply other than 429 ends it at once with a ClientError wrapping the status
  error, with no further round trip; every other reply, among them network errors, 5xx and
  429, is followed by the next attempt while attempts remain; and when all attempts fail the
  call returns the all-retries-exhausted error wrapping the error of the last attempt.\<close>

theorem PostOne_classification:
  assumes "\<not> limiterErr env"
  shows "length (calls (snd (PostOne c env (Some r)))) \<le> attemptBudget c
    \<and> (- 1 \<le> retries c \<and> retries c < 2 ^ 63 - 1 \<longrightarrow> int (attemptBudget c) = retries c + 1)
    \<and> (\<forall>k code. k < attemptBudget c \<and> (\<forall>j\<le>k. undisturbed c env j)
          \<and> (\<forall>j<k. softFail (reply (attemptEnv env j)))
          \<and> reply (attemptEnv env k) = Response code \<and> 200 \<le> code \<and> code < 300
        \<longrightarrow> fst (PostOne c env (Some r)) = None
            \<and> calls (snd (PostOne c env (Some r))) = [0..<Suc k])
    \<and> (\<forall>k code. k < attemptBudget c \<and> (\<forall>j\<le>k. undisturbed c env j)
          \<and> (\<forall>j<k. softFail (reply (attemptEnv env j)))
          \<and> reply (attemptEnv env k) = Response code \<and> 400 \<le> code \<and> code < 500 \<and> code \<noteq> 429
        \<longrightarrow> fst (PostOne c env (Some r)) = Some (ClientError (UnexpectedStatus code))
            \<and> calls (snd (PostOne c env (Some r))) = [0..<Suc k])
    \<and> ((\<forall>j<attemptBudget c. undisturbed c env j \<and> softFail (reply (attemptEnv env j)))
        \<longrightarrow> fst (PostOne c env (Some r))
              = Some (AllRetriesExhausted
                  (if attemptBudget c = 0 then None
                   else Some (replyErr (reply (attemptEnv env (attemptBudget c - 1))))))
            \<and> calls (snd (PostOne c env (Some r))) = [0..<attemptBudget c])
    \<and> softFail NetworkError
    \<and> (\<forall>code. (500 \<le> code \<and> code < 600) \<or> code = 429 \<longrightarrow> softFail (Response code))"
proof (intro conjI allI impI)
  show "length (calls (snd (PostOne c env (Some r)))) \<le> attemptBudget c"
    using attemptLoop_calls_bound by (simp add: PostOne_loop [OF assms] del: attemptLoop.simps)
  show "int (attemptBudget c) = retries c + 1" if "- 1 \<le> retries c \<and> retries c < 2 ^ 63 - 1"
    using that attemptBudget_retries by blast
  show "softFail NetworkError" by (simp add: softFail_def)
  show "softFail (Response code)" if "(500 \<le> code \<and> code < 600) \<or> code = 429" for code
    using that by (auto simp: softFail_def)
next
  fix k code
  assume h: "k < attemptBudget c \<and> (\<forall>j\<le>k. undisturbed c env j)
          \<and> (\<forall>j<k. softFail (reply (attemptEnv env j)))
          \<and> reply (attemptEnv env k) = Response code \<and> 200 \<le> code \<and> code < 300"
  then have "fst (PostOne c env (Some r)) = None \<and> calls (snd (PostOne c env (Some r))) = [0..<Suc k]"
    using PostOne_final(1) [OF assms, of k c code r] by blast
  then show "fst (PostOne c env (Some r)) = None"
    and "calls (snd (PostOne c env (Some r))) = [0..<Suc k]" by blast+
next
  fix k code
  assume h: "k < attemptBudget c \<and> (\<forall>j\<le>k. undisturbed c env j)
          \<and> (\<forall>j<k. softFail (reply (attemptEnv env j)))
          \<and> reply (attemptEnv env k) = Response code \<and> 400 \<le> code \<and> code < 500 \<and> code \<noteq> 429"
  then have "fst (PostOne c env (Some r)) = Some (ClientError (UnexpectedStatus code))
      \<and> calls (snd (PostOne c env (Some r))) = [0..<Suc k]"
    using PostOne_final(2) [OF assms, of k c code r] by blast
  then show "fst (PostOne c env (Some r)) = Some (ClientError (UnexpectedStatus code))"
    and "calls (snd (PostOne c env (Some r))) = [0..<Suc k]" by blast+
next
  assume h: "\<forall>j<attemptBudget c. undisturbed c env j \<and> softFail (reply (attemptEnv env j))"
  from PostOne_exhausted [OF assms h, of r]
  show "fst (PostOne c env (Some r))
              = Some (AllRetriesExhausted
                  (if attemptBudget c = 0 then None
                   else Some (replyErr (reply (attemptEnv env (attemptBudget c - 1))))))"
    and "calls (snd (PostOne c env (Some r))) = [0..<attemptBudget c]" by blast+
qed

lemma serving_simps:
  "limiterErr (serving f) = False"
  "reply (attemptEnv (serving f) k) = Response (f k)"
  "rnd (attemptEnv (serving f) k) = 7"
  "floatOverflow (serving f) = 0"
  "undisturbed c (serving f) k"
  by (simp_all add: serving_def answering_def undisturbed_def)

lemma exClient_budget: "attemptBudget exClient = 4"
  by (simp add: attemptBudget_def exClient_def wrap64_def)

lemma upt_4: "[0..<Suc 0] = [0]" "[0..<Suc 3] = [0, 1, 2, 3]" "[0..<4] = [0, 1, 2, 3]"
  by (simp_all add: upt_rec)

text \<open>With the default three retries: a 404 on the first attempt gives one round trip and
  a ClientError; 500 three times and then 200 gives four round trips and success; 503
  throughout gives four round trips and the exhausted error wrapping the last 503.\<close>

theorem PostOne_classification_witness:
  "fst (PostOne exClient (serving (\<lambda>k. 404)) (Some exRecord))
      = Some (ClientError (UnexpectedStatus 404))
   \<and> calls (snd (PostOne exClient (serving (\<lambda>k. 404)) (Some exRecord))) = [0]
   \<and> fst (PostOne exClient (serving (\<lambda>k. if k < 3 then 500 else 200)) (Some exRecord)) = None
   \<and> calls (snd (PostOne exClient (serving (\<lambda>k. if k < 3 then 500 else 200)) (Some exRecord)))
      = [0, 1, 2, 3]
   \<and> fst (PostOne exClient (serving (\<lambda>k. 503)) (Some exRecord))
      = Some (AllRetriesExhausted (Some (UnexpectedStatus 503)))
   \<and> calls (snd (PostOne exClient (serving (\<lambda>k. 503)) (Some exRecord))) = [0, 1, 2, 3]"
proof -
  have s500: "softFail (Response 500)" "softFail (Response 503)"
    by (simp_all add: softFail_def)
  have a: "fst (PostOne exClient (serving (\<lambda>k. 404)) (Some exRecord))
      = Some (ClientError (UnexpectedStatus 404))
   \<and> calls (snd (PostOne exClient (serving (\<lambda>k. 404)) (Some exRecord))) = [0]"
    using PostOne_classification [of "serving (\<lambda>k. 404)" exClient exRecord,
        THEN conjunct2, THEN conjunct2, THEN conjunct2, THEN conjunct1, rule_format, of 0 404]
    by (simp add: serving_simps exClient_budget)
  have b: "fst (PostOne exClient (serving (\<lambda>k. if k < 3 then 500 else 200)) (Some exRecord)) = None
   \<and> calls (snd (PostOne exClient (serving (\<lambda>k. if k < 3 then 500 else 200)) (Some exRecord)))
      = [0, 1, 2, 3]"
    using PostOne_classification [of "serving (\<lambda>k. if k < 3 then 500 else 200)" exClient exRecord,
        THEN conjunct2, THEN conjunct2, THEN conjunct1, rule_format, of 3 200]
    by (simp add: serving_simps exClient_budget s500 upt_4)
  have c: "fst (PostOne exClient (serving (\<lambda>k. 503)) (Some exRecord))
      = Some (AllRetriesExhausted (Some (UnexpectedStatus 503)))
   \<and> calls (snd (PostOne exClient (serving (\<lambda>k. 503)) (Some exRecord))) = [0, 1, 2, 3]"
    using PostOne_classification [of "serving (\<lambda>k. 503)" exClient exRecord]
    by (simp add: serving_simps exClient_budget s500 upt_4 replyErr_def)
  show ?thesis using a b c by blast
qed

lemma wrap64_id: "- (2 ^ 63) \<le> x \<Longrightarrow> x < 2 ^ 63 \<Longrightarrow> wrap64 x = x"
  by (simp add: wrap64_def)

lemma Int64N_range: "0 \<le> Int64N r 50 \<and> Int64N r 50 < 50"
  by (simp add: Int64N_def)

lemma backoffDelay_37:
  "backoffDelay ovf 37 r = Int64N r 50 * Millisecond - 4702848726509551616"
proof -
  have j: "0 \<le> Int64N r 50" "Int64N r 50 < 50" using Int64N_range by simp_all
  have b: "wrap64 (wrap64 (pow2Duration ovf 37 * 100) * Millisecond) = - 4702848726509551616"
    by (simp add: pow2Duration_def wrap64_def Millisecond_def)
  have jw: "wrap64 (Int64N r 50 * Millisecond) = Int64N r 50 * Millisecond"
    using j by (intro wrap64_id) (simp_all add: Millisecond_def)
  have dw: "wrap64 (- 4702848726509551616 + Int64N r 50 * Millisecond)
      = - 4702848726509551616 + Int64N r 50 * Millisecond"
    using j by (intro wrap64_id) (simp_all add: Millisecond_def)
  have "backoffDelay ovf 37 r
      = (if - 4702848726509551616 + Int64N r 50 * Millisecond > 5 * Second then 5 * Second
         else - 4702848726509551616 + Int64N r 50 * Millisecond)"
    unfolding backoffDelay_def Let_def b jw dw ..
  then show ?thesis
    using j by (simp add: Millisecond_def Second_def)
qed

text \<open>C4: the backoff before attempt \<open>k > 0\<close> is to last
  \<open>min(5 s, 2^k * 100 ms + jitter)\<close>. The product \<open>2^k * 100 * time.Millisecond\<close> is computed
  in 64-bit nanoseconds and wraps before the cap is applied: at attempt 37 it is negative, the
  test \<open>delay > 5 s\<close> fails, and the timer is given a negative duration (it fires at once)
  where the formula gives 5 seconds. With \<open>retries = 37\<close> and a server that answers 500 every
  time, the sleep recorded before round trip 37 is that negative number of nanoseconds.\<close>

theorem backoffDelay_overflow:
  "backoffDelay ovf 37 r = Int64N r 50 * Millisecond - 4702848726509551616
   \<and> backoffDelay ovf 37 r < 0
   \<and> min (5 * Second) (2 ^ 37 * 100 * Millisecond + Int64N r 50 * Millisecond) = 5 * Second
   \<and> snd (PostOne (exClient\<lparr>retries := 37\<rparr>) (serving (\<lambda>k. 500)) (Some exRecord)) ! 73
       = Sleep (- 4702848726502551616)
   \<and> snd (PostOne (exClient\<lparr>retries := 37\<rparr>) (serving (\<lambda>k. 500)) (Some exRecord)) ! 74
       = Call 37"
proof -
  have j: "0 \<le> Int64N r 50" "Int64N r 50 < 50" using Int64N_range by simp_all
  have 1: "backoffDelay ovf 37 r < 0"
    using j by (simp add: backoffDelay_37 Millisecond_def)
  have 2: "min (5 * Second) (2 ^ 37 * 100 * Millisecond + Int64N r 50 * Millisecond) = 5 * Second"
    using j by (simp add: Millisecond_def Second_def)
  have 3: "snd (PostOne (exClient\<lparr>retries := 37\<rparr>) (serving (\<lambda>k. 500)) (Some exRecord)) ! 73
       = Sleep (- 4702848726502551616)"
    by code_simp
  have 4: "snd (PostOne (exClient\<lparr>retries := 37\<rparr>) (serving (\<lambda>k. 500)) (Some exRecord)) ! 74
       = Call 37"
    by code_simp
  show ?thesis using backoffDelay_37 1 2 3 4 by blast
qed

section \<open>One execution of recordContainer\<close>

lemma status_distinct: "StatusDeployed \<noteq> StatusDecommissioned"
  by (simp add: StatusDeployed_def StatusDecommissioned_def)

lemma recordContainer_skip:
  assumes "reportedName c pod ct = [] \<or> digestOf pod ct = []
     \<or> (st = StatusDeployed \<and> identityKey c pod ct \<in> observedDeployments c)
     \<or> (st = StatusDecommissioned \<and> identityKey c pod ct \<notin> observedDeployments c)"
  shows "recordContainer env pod ct st et c = (None, c)"
  using assms
  unfolding recordContainer_def reportedName_def digestOf_def identityKey_def Let_def
  by auto

lemma recordContainer_invalid:
  assumes "reportedName c pod ct \<noteq> []" and "digestOf pod ct \<noteq> []"
    and "st \<noteq> StatusDeployed" and "st \<noteq> StatusDecommissioned"
  shows "recordContainer env pod ct st et c = (Some (InvalidStatus st), c)"
  using assms
  unfolding recordContainer_def reportedName_def digestOf_def identityKey_def Let_def
  by simp

lemma recordContainer_post:
  assumes "reportedName c pod ct \<noteq> []" and "digestOf pod ct \<noteq> []"
    and "(st = StatusDeployed \<and> identityKey c pod ct \<notin> observedDeployments c)
       \<or> (st = StatusDecommissioned \<and> identityKey c pod ct \<in> observedDeployments c)"
    and "PostOne (apiClient c) (net env (length (deliveries c))) (Some (builtRecord c pod ct st))
           = (perr, evs)"
  shows "recordContainer env pod ct st et c =
     ((case perr of None \<Rightarrow> None | Some e \<Rightarrow> if errorsAsClientError e then None else Some e),
      c\<lparr>deliveries := \<lparr>sent = builtRecord c pod ct st, outcome = perr, events = evs\<rparr> # deliveries c,
        observedDeployments :=
          (if perr = None
           then (if st = StatusDeployed then insert (identityKey c pod ct) (observedDeployments c)
                 else observedDeployments c - {identityKey c pod ct})
           else observedDeployments c)\<rparr>)"
proof -
  obtain imageName version where en: "ExtractName (containerImage ct) = (imageName, version)"
    by (cases "ExtractName (containerImage ct)")
  have rec: "NewDeploymentRecord imageName (getContainerDigest pod (containerName ct)) version
        (cfgLogicalEnvironment (cfg c)) (cfgPhysicalEnvironment (cfg c)) (cfgCluster (cfg c)) s
        (getARDeploymentName pod ct (Template (cfg c))) = builtRecord c pod ct s" for s
    by (simp add: builtRecord_def en digestOf_def reportedName_def)
  show ?thesis
  proof (cases perr)
    case None
    then show ?thesis
      using assms status_distinct
      unfolding recordContainer_def Let_def en
      by (auto simp: rec reportedName_def digestOf_def identityKey_def)
  next
    case (Some e)
    then show ?thesis
      using assms status_distinct
      unfolding recordContainer_def Let_def en
      by (auto simp: rec reportedName_def digestOf_def identityKey_def)
  qed
qed

lemma attemptLoop_errors:
  assumes "\<forall>e'. le = Some e' \<longrightarrow> \<not> errorsAsClientError e'"
    and "fst (attemptLoop c env n k le) = Some e"
  shows "errorsAsClientError e = isClientError e"
  using assms
proof (induction n arbitrary: k le)
  case 0
  then show ?case by (cases le) auto
next
  case (Suc n)
  show ?case
  proof (cases "undisturbed c env k")
    case False
    then consider (ctx) "0 < k \<and> ctxDone (attemptEnv env k)"
      | (req) "\<not> (0 < k \<and> ctxDone (attemptEnv env k))" "requestErr (attemptEnv env k)"
      | (tok) "\<not> (0 < k \<and> ctxDone (attemptEnv env k))" "\<not> requestErr (attemptEnv env k)"
          "transport c \<and> tokenErr (attemptEnv env k)"
      unfolding undisturbed_def Let_def by blast
    then have "fst (attemptLoop c env (Suc n) k le) = Some ContextCancelled
        \<or> fst (attemptLoop c env (Suc n) k le) = Some CreateRequest
        \<or> fst (attemptLoop c env (Suc n) k le) = Some AccessToken"
    proof cases
      case ctx
      then show ?thesis by (simp add: Let_def)
    next
      case req
      then show ?thesis by (simp add: Let_def)
    next
      case tok
      then show ?thesis by (simp add: Let_def)
    qed
    with Suc.prems(2) show ?thesis by auto
  next
    case True
    show ?thesis
    proof (cases "reply (attemptEnv env k)")
      case NetworkError
      then have "fst (attemptLoop c env n (Suc k) (Some PostRequestFailed)) = Some e"
        using Suc.prems(2) by (simp add: attemptLoop_step [OF True] fst_after del: attemptLoop.simps)
      then show ?thesis using Suc.IH [of "Some PostRequestFailed" "Suc k"] by simp
    next
      case (Response code)
      consider (ok) "200 \<le> code \<and> code < 300"
        | (perm) "\<not> (200 \<le> code \<and> code < 300)" "400 \<le> code \<and> code < 500 \<and> code \<noteq> 429"
        | (soft) "\<not> (200 \<le> code \<and> code < 300)" "\<not> (400 \<le> code \<and> code < 500 \<and> code \<noteq> 429)"
        by blast
      then show ?thesis
      proof cases
        case ok
        then show ?thesis
          using Suc.prems(2) Response
          by (simp add: attemptLoop_step [OF True] del: attemptLoop.simps)
      next
        case perm
        then have "e = ClientError (UnexpectedStatus code)"
          using Suc.prems(2) Response
          by (simp add: attemptLoop_step [OF True] del: attemptLoop.simps)
        then show ?thesis by simp
      next
        case soft
        then have "fst (attemptLoop c env n (Suc k) (Some (UnexpectedStatus code))) = Some e"
          using Suc.prems(2) Response
          by (auto simp add: attemptLoop_step [OF True] fst_after simp del: attemptLoop.simps)
        then show ?thesis using Suc.IH [of "Some (UnexpectedStatus code)" "Suc k"] by simp
      qed
    qed
  qed
qed

lemma PostOne_errors:
  assumes "fst (PostOne c env r) = Some e"
  shows "errorsAsClientError e = isClientError e"
proof (cases r)
  case None
  then show ?thesis using assms by (auto simp: PostOne_def)
next
  case (Some rec)
  show ?thesis
  proof (cases "limiterErr env")
    case True
    then show ?thesis using assms Some by (auto simp: PostOne_def)
  next
    case False
    then have "fst (attemptLoop c env (attemptBudget c) 0 None) = Some e"
      using assms Some by (simp add: PostOne_def attemptBudget_def)
    then show ?thesis using attemptLoop_errors [of None] by blast
  qed
qed

lemma newDeliveries_same [simp]: "newDeliveries c c = []"
  by (simp add: newDeliveries_def)

lemma newDeliveries_append:
  "deliveries c' = new @ deliveries c \<Longrightarrow> newDeliveries c c' = new"
  by (simp add: newDeliveries_def)

lemma builtRecord_fields:
  "DeploymentName (builtRecord c pod ct st) = reportedName c pod ct"
  "Digest (builtRecord c pod ct st) = digestOf pod ct"
  "st = StatusDeployed \<or> st = StatusDecommissioned \<Longrightarrow> Status (builtRecord c pod ct st) = st"
  by (auto simp: builtRecord_def NewDeploymentRecord_def)

text \<open>One execution of recordContainer, summarised: either nothing is sent and the controller
  is unchanged, or exactly one record is sent.\<close>

lemma recordContainer_summary:
  obtains (quiet) "snd (recordContainer env pod ct st et c) = c"
      "fst (recordContainer env pod ct st et c) = None
        \<or> (st \<noteq> StatusDeployed \<and> st \<noteq> StatusDecommissioned)"
      "reportedName c pod ct = [] \<or> digestOf pod ct = []
        \<or> (st = StatusDeployed \<and> identityKey c pod ct \<in> observedDeployments c)
        \<or> (st = StatusDecommissioned \<and> identityKey c pod ct \<notin> observedDeployments c)
        \<or> (st \<noteq> StatusDeployed \<and> st \<noteq> StatusDecommissioned)"
    | (sent) perr evs where
      "reportedName c pod ct \<noteq> []" "digestOf pod ct \<noteq> []"
      "(st = StatusDeployed \<and> identityKey c pod ct \<notin> observedDeployments c)
         \<or> (st = StatusDecommissioned \<and> identityKey c pod ct \<in> observedDeployments c)"
      "PostOne (apiClient c) (net env (length (deliveries c))) (Some (builtRecord c pod ct st))
         = (perr, evs)"
      "fst (recordContainer env pod ct st et c)
         = (case perr of None \<Rightarrow> None | Some e \<Rightarrow> if isClientError e then None else Some e)"
      "snd (recordContainer env pod ct st et c)
         = c\<lparr>deliveries := \<lparr>sent = builtRecord c pod ct st, outcome = perr, events = evs\<rparr>
                 # deliveries c,
             observedDeployments :=
               (if perr = None
                then (if st = StatusDeployed
                      then insert (identityKey c pod ct) (observedDeployments c)
                      else observedDeployments c - {identityKey c pod ct})
                else observedDeployments c)\<rparr>"
proof -
  consider (a) "reportedName c pod ct = [] \<or> digestOf pod ct = []
        \<or> (st = StatusDeployed \<and> identityKey c pod ct \<in> observedDeployments c)
        \<or> (st = StatusDecommissioned \<and> identityKey c pod ct \<notin> observedDeployments c)"
    | (b) "reportedName c pod ct \<noteq> []" "digestOf pod ct \<noteq> []"
        "st \<noteq> StatusDeployed" "st \<noteq> StatusDecommissioned"
    | (c) "reportedName c pod ct \<noteq> []" "digestOf pod ct \<noteq> []"
        "(st = StatusDeployed \<and> identityKey c pod ct \<notin> observedDeployments c)
         \<or> (st = StatusDecommissioned \<and> identityKey c pod ct \<in> observedDeployments c)"
    by blast
  then show thesis
  proof cases
    case a
    show thesis
      by (rule quiet) (use a recordContainer_skip [OF a, of env et] in auto)
  next
    case b
    show thesis
      by (rule quiet) (use b recordContainer_invalid [OF b, of env et] in auto)
  next
    case c
    obtain perr evs where p:
      "PostOne (apiClient c) (net env (length (deliveries c))) (Some (builtRecord c pod ct st))
         = (perr, evs)"
      by (cases "PostOne (apiClient c) (net env (length (deliveries c)))
            (Some (builtRecord c pod ct st))")
    have cls: "errorsAsClientError e = isClientError e" if "perr = Some e" for e
      using PostOne_errors [of "apiClient c" "net env (length (deliveries c))"
          "Some (builtRecord c pod ct st)" e] p that by simp
    have f: "fst (recordContainer env pod ct st et c)
         = (case perr of None \<Rightarrow> None | Some e \<Rightarrow> if isClientError e then None else Some e)"
      using cls by (simp add: recordContainer_post [OF c p] split: option.splits)
    show thesis
      by (rule sent [OF c p f]) (simp add: recordContainer_post [OF c p])
  qed
qed

section \<open>Requeueing on delivery errors\<close>

lemma requeueing_entry:
  "requeueing \<lparr>sent = r, outcome = perr, events = evs\<rparr>
     = (case perr of None \<Rightarrow> False | Some e \<Rightarrow> \<not> isClientError e)"
  by (simp add: requeueing_def)

lemma recordContainer_step:
  assumes st: "st = StatusDeployed \<or> st = StatusDecommissioned"
  shows "\<exists>new. deliveries (snd (recordContainer env pod ct st et c)) = new @ deliveries c
      \<and> ((fst (recordContainer env pod ct st et c) \<noteq> None) = (\<exists>d\<in>set new. requeueing d))"
proof (cases rule: recordContainer_summary [of env pod ct st et c])
  case quiet
  then have "deliveries (snd (recordContainer env pod ct st et c)) = [] @ deliveries c"
    "fst (recordContainer env pod ct st et c) = None"
    using st by auto
  then show ?thesis by (metis empty_iff list.set(1))
next
  case (sent perr evs)
  let ?d = "\<lparr>sent = builtRecord c pod ct st, outcome = perr, events = evs\<rparr>"
  have "deliveries (snd (recordContainer env pod ct st et c)) = [?d] @ deliveries c"
    by (simp add: sent(6))
  moreover have "(fst (recordContainer env pod ct st et c) \<noteq> None) = (\<exists>d\<in>set [?d]. requeueing d)"
    by (simp add: sent(5) requeueing_entry split: option.splits)
  ultimately show ?thesis by blast
qed

lemma recordContainers_loop:
  assumes st: "st = StatusDeployed \<or> st = StatusDecommissioned"
  shows "\<exists>new. deliveries (snd (recordContainers env pod cs st et le c)) = new @ deliveries c
      \<and> ((fst (recordContainers env pod cs st et le c) \<noteq> None)
           = (le \<noteq> None \<or> (\<exists>d\<in>set new. requeueing d)))"
proof (induction cs arbitrary: le c)
  case Nil
  show ?case by simp
next
  case (Cons ct cs)
  obtain res c1 where rc: "recordContainer env pod ct st et c = (res, c1)"
    by (cases "recordContainer env pod ct st et c")
  from recordContainer_step [OF st, of env pod ct et c]
  obtain new1 where "deliveries (snd (recordContainer env pod ct st et c)) = new1 @ deliveries c"
    "(fst (recordContainer env pod ct st et c) \<noteq> None) = (\<exists>d\<in>set new1. requeueing d)"
    by blast
  then have n1: "deliveries c1 = new1 @ deliveries c"
    "(res \<noteq> None) = (\<exists>d\<in>set new1. requeueing d)"
    unfolding rc by simp_all
  show ?case
  proof (cases res)
    case None
    obtain new2 where n2: "deliveries (snd (recordContainers env pod cs st et le c1))
          = new2 @ deliveries c1"
      "(fst (recordContainers env pod cs st et le c1) \<noteq> None)
          = (le \<noteq> None \<or> (\<exists>d\<in>set new2. requeueing d))"
      using Cons.IH [of le c1] by blast
    have eq: "recordContainers env pod (ct # cs) st et le c = recordContainers env pod cs st et le c1"
      using rc None by simp
    have "deliveries (snd (recordContainers env pod (ct # cs) st et le c))
        = (new2 @ new1) @ deliveries c"
      using n1 n2 eq by simp
    moreover have "(fst (recordContainers env pod (ct # cs) st et le c) \<noteq> None)
        = (le \<noteq> None \<or> (\<exists>d\<in>set (new2 @ new1). requeueing d))"
      using n1 n2 eq None by auto
    ultimately show ?thesis by blast
  next
    case (Some e)
    obtain new2 where n2: "deliveries (snd (recordContainers env pod cs st et (Some e) c1))
          = new2 @ deliveries c1"
      "(fst (recordContainers env pod cs st et (Some e) c1) \<noteq> None)
          = (Some e \<noteq> None \<or> (\<exists>d\<in>set new2. requeueing d))"
      using Cons.IH [of "Some e" c1] by blast
    have eq: "recordContainers env pod (ct # cs) st et le c
        = recordContainers env pod cs st et (Some e) c1"
      using rc Some by simp
    have "deliveries (snd (recordContainers env pod (ct # cs) st et le c))
        = (new2 @ new1) @ deliveries c"
      using n1 n2 eq by simp
    moreover have "(fst (recordContainers env pod (ct # cs) st et le c) \<noteq> None)
        = (le \<noteq> None \<or> (\<exists>d\<in>set (new2 @ new1). requeueing d))"
      using n1 n2 eq Some by auto
    ultimately show ?thesis by blast
  qed
qed

lemma recordPod_result:
  "\<exists>new. deliveries (snd (recordPod env pod et c)) = new @ deliveries c
      \<and> ((fst (recordPod env pod et c) \<noteq> None) = (\<exists>d\<in>set new. requeueing d))"
proof -
  define st where "st = (if et = EventDeleted then StatusDecommissioned else StatusDeployed)"
  have st: "st = StatusDeployed \<or> st = StatusDecommissioned"
    by (simp add: st_def)
  obtain le c1 where r1: "recordContainers env pod (Containers pod) st et None c = (le, c1)"
    by (cases "recordContainers env pod (Containers pod) st et None c")
  from recordContainers_loop [OF st, of env pod "Containers pod" et None c]
  obtain new1 where
    "deliveries (snd (recordContainers env pod (Containers pod) st et None c)) = new1 @ deliveries c"
    "(fst (recordContainers env pod (Containers pod) st et None c) \<noteq> None)
       = (None \<noteq> (None :: err option) \<or> (\<exists>d\<in>set new1. requeueing d))"
    by blast
  then have n1: "deliveries c1 = new1 @ deliveries c"
    "(le \<noteq> None) = (\<exists>d\<in>set new1. requeueing d)"
    unfolding r1 by simp_all
  obtain new2 where n2:
    "deliveries (snd (recordContainers env pod (InitContainers pod) st et le c1))
       = new2 @ deliveries c1"
    "(fst (recordContainers env pod (InitContainers pod) st et le c1) \<noteq> None)
       = (le \<noteq> None \<or> (\<exists>d\<in>set new2. requeueing d))"
    using recordContainers_loop [OF st, of env pod "InitContainers pod" et le c1] by blast
  have eq: "recordPod env pod et c = recordContainers env pod (InitContainers pod) st et le c1"
    using r1 by (simp add: recordPod_def st_def Let_def)
  have "deliveries (snd (recordPod env pod et c)) = (new2 @ new1) @ deliveries c"
    using n1 n2 eq by simp
  moreover have "(fst (recordPod env pod et c) \<noteq> None) = (\<exists>d\<in>set (new2 @ new1). requeueing d)"
    using n1 n2 eq by auto
  ultimately show ?thesis by blast
qed

lemma processEvent_result:
  "\<exists>new. deliveries (snd (processEvent env ev c)) = new @ deliveries c
      \<and> ((fst (processEvent env ev c) \<noteq> None) = (\<exists>d\<in>set new. requeueing d))"
proof -
  have quiet: ?thesis if "processEvent env ev c = (None, c)"
    using that by (intro exI [of _ "[]"]) simp
  have "processEvent env ev c = (None, c)
      \<or> (\<exists>pod. processEvent env ev c = recordPod env pod (EventType ev) c)"
  proof (cases "EventType ev = EventDeleted")
    case True
    show ?thesis
    proof (cases "DeletedPod ev")
      case None
      then show ?thesis using True by (simp add: processEvent_def)
    next
      case (Some a)
      show ?thesis
      proof (cases "getDeploymentName (heap env a) \<noteq> []
          \<and> deploymentExists env (podNamespace (heap env a)) (getDeploymentName (heap env a))")
        case True
        then show ?thesis using \<open>EventType ev = EventDeleted\<close> Some
          by (simp add: processEvent_def Let_def)
      next
        case False
        then have "processEvent env ev c = recordPod env (heap env a) (EventType ev) c"
          using \<open>EventType ev = EventDeleted\<close> Some
          by (auto simp add: processEvent_def Let_def)
        then show ?thesis by blast
      qed
    qed
  next
    case False
    then show ?thesis
      by (cases "indexer env (Key ev)") (auto simp add: processEvent_def)
  qed
  then consider (q) "processEvent env ev c = (None, c)"
    | (p) pod where "processEvent env ev c = recordPod env pod (EventType ev) c"
    by blast
  then show ?thesis
  proof cases
    case q
    then show ?thesis by (rule quiet)
  next
    case (p pod)
    then show ?thesis using recordPod_result [of env pod "EventType ev" c] by simp
  qed
qed

text \<open>C6: an execution of recordContainer sends at most one record. When PostOne answers
  with a ClientError, recordContainer returns nil; when it answers with any other error,
  recordContainer returns that error; when it succeeds, recordContainer returns nil. And
  processEvent returns an error exactly when one of the deliveries made while it ran failed
  with an error other than a ClientError, whatever happened to the other containers.\<close>

theorem delivery_errors_requeue:
  "(newDeliveries c (snd (recordContainer env pod ct st et c)) = []
     \<or> (\<exists>d. newDeliveries c (snd (recordContainer env pod ct st et c)) = [d]
          \<and> PostOne (apiClient c) (net env (length (deliveries c))) (Some (sent d))
              = (outcome d, events d)
          \<and> (\<forall>e. outcome d = Some e \<and> isClientError e
                \<longrightarrow> fst (recordContainer env pod ct st et c) = None)
          \<and> (\<forall>e. outcome d = Some e \<and> \<not> isClientError e
                \<longrightarrow> fst (recordContainer env pod ct st et c) = Some e)
          \<and> (outcome d = None \<longrightarrow> fst (recordContainer env pod ct st et c) = None)))
   \<and> ((fst (processEvent env ev c) \<noteq> None)
        = (\<exists>d\<in>set (newDeliveries c (snd (processEvent env ev c))). requeueing d))"
proof
  show "newDeliveries c (snd (recordContainer env pod ct st et c)) = []
     \<or> (\<exists>d. newDeliveries c (snd (recordContainer env pod ct st et c)) = [d]
          \<and> PostOne (apiClient c) (net env (length (deliveries c))) (Some (sent d))
              = (outcome d, events d)
          \<and> (\<forall>e. outcome d = Some e \<and> isClientError e
                \<longrightarrow> fst (recordContainer env pod ct st et c) = None)
          \<and> (\<forall>e. outcome d = Some e \<and> \<not> isClientError e
                \<longrightarrow> fst (recordContainer env pod ct st et c) = Some e)
          \<and> (outcome d = None \<longrightarrow> fst (recordContainer env pod ct st et c) = None))"
  proof (cases rule: recordContainer_summary [of env pod ct st et c])
    case quiet
    then show ?thesis by simp
  next
    case (sent perr evs)
    let ?d = "\<lparr>sent = builtRecord c pod ct st, outcome = perr, events = evs\<rparr>"
    have "newDeliveries c (snd (recordContainer env pod ct st et c)) = [?d]"
      by (rule newDeliveries_append) (simp add: sent(6))
    moreover have "PostOne (apiClient c) (net env (length (deliveries c))) (Some (sent ?d))
              = (outcome ?d, events ?d)"
      using sent(4) by simp
    moreover have "\<forall>e. outcome ?d = Some e \<and> isClientError e
                \<longrightarrow> fst (recordContainer env pod ct st et c) = None"
      by (simp add: sent(5))
    moreover have "\<forall>e. outcome ?d = Some e \<and> \<not> isClientError e
                \<longrightarrow> fst (recordContainer env pod ct st et c) = Some e"
      by (simp add: sent(5))
    moreover have "outcome ?d = None \<longrightarrow> fst (recordContainer env pod ct st et c) = None"
      by (simp add: sent(5))
    ultimately have "\<exists>d. newDeliveries c (snd (recordContainer env pod ct st et c)) = [d]
          \<and> PostOne (apiClient c) (net env (length (deliveries c))) (Some (sent d))
              = (outcome d, events d)
          \<and> (\<forall>e. outcome d = Some e \<and> isClientError e
                \<longrightarrow> fst (recordContainer env pod ct st et c) = None)
          \<and> (\<forall>e. outcome d = Some e \<and> \<not> isClientError e
                \<longrightarrow> fst (recordContainer env pod ct st et c) = Some e)
          \<and> (outcome d = None \<longrightarrow> fst (recordContainer env pod ct st et c) = None)"
      by (intro exI [of _ ?d] conjI)
    then show ?thesis by (rule disjI2)
  qed
  obtain new where n: "deliveries (snd (processEvent env ev c)) = new @ deliveries c"
    "(fst (processEvent env ev c) \<noteq> None) = (\<exists>d\<in>set new. requeueing d)"
    using processEvent_result [of env ev c] by blast
  show "(fst (processEvent env ev c) \<noteq> None)
        = (\<exists>d\<in>set (newDeliveries c (snd (processEvent env ev c))). requeueing d)"
    using n newDeliveries_append [OF n(1)] by simp
qed

text \<open>A 404 is swallowed; and in a pod of two containers whose first delivery exhausts its
  retries on 500 while the second succeeds, processEvent reports the error although the
  second container was recorded and cached.\<close>

theorem delivery_errors_requeue_witness:
  "fst (recordContainer (exCluster NotFound (\<lambda>n. serving (\<lambda>k. 404))) exPod exContainer
          StatusDeployed EventCreated exController) = None
   \<and> map outcome (newDeliveries exController
        (snd (recordContainer (exCluster NotFound (\<lambda>n. serving (\<lambda>k. 404))) exPod exContainer
          StatusDeployed EventCreated exController)))
       = [Some (ClientError (UnexpectedStatus 404))]
   \<and> fst (processEvent
          (exCluster2 NotFound (\<lambda>n. if n = 0 then serving (\<lambda>k. 500) else serving (\<lambda>k. 200)))
          \<lparr>Key = ''prod/web-7f9c9b6d8-x2x5k'', EventType = EventCreated, DeletedPod = None\<rparr>
          exController)
       = Some (AllRetriesExhausted (Some (UnexpectedStatus 500)))
   \<and> map outcome (newDeliveries exController (snd (processEvent
          (exCluster2 NotFound (\<lambda>n. if n = 0 then serving (\<lambda>k. 500) else serving (\<lambda>k. 200)))
          \<lparr>Key = ''prod/web-7f9c9b6d8-x2x5k'', EventType = EventCreated, DeletedPod = None\<rparr>
          exController)))
       = [None, Some (AllRetriesExhausted (Some (UnexpectedStatus 500)))]
   \<and> observedDeployments (snd (processEvent
          (exCluster2 NotFound (\<lambda>n. if n = 0 then serving (\<lambda>k. 500) else serving (\<lambda>k. 200)))
          \<lparr>Key = ''prod/web-7f9c9b6d8-x2x5k'', EventType = EventCreated, DeletedPod = None\<rparr>
          exController))
       = {''prod/web/sidecar||sha256:bbbb''}"
proof -
  let ?env1 = "exCluster NotFound (\<lambda>n. serving (\<lambda>k. 404))"
  let ?env2 = "exCluster2 NotFound (\<lambda>n. if n = 0 then serving (\<lambda>k. 500) else serving (\<lambda>k. 200))"
  let ?ev = "\<lparr>Key = ''prod/web-7f9c9b6d8-x2x5k'', EventType = EventCreated, DeletedPod = None\<rparr>"
  have o1: "map outcome (newDeliveries exController
        (snd (recordContainer ?env1 exPod exContainer StatusDeployed EventCreated exController)))
       = [Some (ClientError (UnexpectedStatus 404))]"
    by code_simp
  have o2: "map outcome (newDeliveries exController (snd (processEvent ?env2 ?ev exController)))
       = [None, Some (AllRetriesExhausted (Some (UnexpectedStatus 500)))]"
    by code_simp
  have o3: "observedDeployments (snd (processEvent ?env2 ?ev exController))
       = {''prod/web/sidecar||sha256:bbbb''}"
    by code_simp
  have o4: "fst (processEvent ?env2 ?ev exController)
       = Some (AllRetriesExhausted (Some (UnexpectedStatus 500)))"
    by code_simp
  note inst = delivery_errors_requeue [of exController ?env1 exPod exContainer StatusDeployed
      EventCreated ?ev]
  from o1 obtain d where d: "newDeliveries exController
        (snd (recordContainer ?env1 exPod exContainer StatusDeployed EventCreated exController)) = [d]"
    "outcome d = Some (ClientError (UnexpectedStatus 404))"
    by auto
  have "fst (recordContainer ?env1 exPod exContainer StatusDeployed EventCreated exController) = None"
    using inst [THEN conjunct1] d by auto
  then show ?thesis using o1 o2 o3 o4 by blast
qed

section \<open>The dedup cache\<close>

lemma keyOf_built:
  "keyOf \<lparr>sent = builtRecord c pod ct st, outcome = p, events = e\<rparr> = identityKey c pod ct"
  by (simp add: keyOf_def builtRecord_fields identityKey_def)

lemma recordContainer_cache:
  "observedDeployments (snd (recordContainer env pod ct st et c))
     = (case newDeliveries c (snd (recordContainer env pod ct st et c)) of
          [d] \<Rightarrow>
            if outcome d = None \<and> Status (sent d) = StatusDeployed
            then insert (keyOf d) (observedDeployments c)
            else if outcome d = None \<and> Status (sent d) = StatusDecommissioned
            then observedDeployments c - {keyOf d}
            else observedDeployments c
        | _ \<Rightarrow> observedDeployments c)"
proof (cases rule: recordContainer_summary [of env pod ct st et c])
  case quiet
  then show ?thesis by simp
next
  case (sent perr evs)
  let ?d = "\<lparr>sent = builtRecord c pod ct st, outcome = perr, events = evs\<rparr>"
  have nd: "newDeliveries c (snd (recordContainer env pod ct st et c)) = [?d]"
    by (rule newDeliveries_append) (simp add: sent(6))
  have stat: "Status (builtRecord c pod ct st) = st"
    using sent(3) builtRecord_fields(3) by blast
  have lhs: "observedDeployments (snd (recordContainer env pod ct st et c))
      = (if perr = None
         then (if st = StatusDeployed then insert (identityKey c pod ct) (observedDeployments c)
               else observedDeployments c - {identityKey c pod ct})
         else observedDeployments c)"
    by (simp add: sent(6))
  show ?thesis
    unfolding nd lhs
    using sent(3) status_distinct
    by (auto simp add: keyOf_built stat)
qed

lemma recordContainer_invariant:
  assumes inv: "\<forall>k. (k \<in> observedDeployments c)
      = (lastDelivered k (deliveries c) = Some StatusDeployed)"
  shows "\<forall>k. (k \<in> observedDeployments (snd (recordContainer env pod ct st et c)))
      = (lastDelivered k (deliveries (snd (recordContainer env pod ct st et c)))
           = Some StatusDeployed)"
proof (cases rule: recordContainer_summary [of env pod ct st et c])
  case quiet
  then show ?thesis using inv by simp
next
  case (sent perr evs)
  let ?d = "\<lparr>sent = builtRecord c pod ct st, outcome = perr, events = evs\<rparr>"
  have stat: "Status (builtRecord c pod ct st) = st"
    using sent(3) builtRecord_fields(3) by blast
  show ?thesis
  proof (cases perr)
    case None
    show ?thesis
    proof
      fix k
      show "(k \<in> observedDeployments (snd (recordContainer env pod ct st et c)))
        = (lastDelivered k (deliveries (snd (recordContainer env pod ct st et c)))
             = Some StatusDeployed)"
        using inv [rule_format, of k] sent(3) status_distinct None
        by (auto simp add: sent(6) keyOf_built stat)
    qed
  next
    case (Some e)
    show ?thesis
    proof
      fix k
      show "(k \<in> observedDeployments (snd (recordContainer env pod ct st et c)))
        = (lastDelivered k (deliveries (snd (recordContainer env pod ct st et c)))
             = Some StatusDeployed)"
        using inv [rule_format, of k] Some
        by (simp add: sent(6))
    qed
  qed
qed

lemma runAll_invariant:
  assumes "\<forall>k. (k \<in> observedDeployments c) = (lastDelivered k (deliveries c) = Some StatusDeployed)"
  shows "\<forall>k. (k \<in> observedDeployments (runAll env runs c))
      = (lastDelivered k (deliveries (runAll env runs c)) = Some StatusDeployed)"
  using assms
proof (induction runs arbitrary: c)
  case Nil
  then show ?case by simp
next
  case (Cons r runs)
  obtain pod ct st et where r: "r = (pod, ct, st, et)"
    by (cases r)
  show ?case
    unfolding r runAll.simps
    by (rule Cons.IH) (rule recordContainer_invariant [OF Cons.prems])
qed

text \<open>C2: starting from a fresh controller, after any sequence of executions of
  recordContainer the dedup cache holds a key exactly when the most recent successful
  delivery under that key had status \<open>deployed\<close> (so none with \<open>decommissioned\<close> succeeded
  after it). Each execution changes the cache only right after a delivery that succeeded:
  it inserts the key after a successful \<open>deployed\<close> POST, removes it after a successful
  \<open>decommissioned\<close> POST, and leaves the cache as it is when the delivery failed or nothing
  was sent.\<close>

theorem dedup_cache_invariant:
  assumes "observedDeployments c = {}" and "deliveries c = []"
  shows "(\<forall>k. (k \<in> observedDeployments (runAll env runs c))
            = (lastDelivered k (deliveries (runAll env runs c)) = Some StatusDeployed))
    \<and> (\<forall>c' pod ct st et.
          observedDeployments (snd (recordContainer env pod ct st et c'))
            = (case newDeliveries c' (snd (recordContainer env pod ct st et c')) of
                 [d] \<Rightarrow>
                   if outcome d = None \<and> Status (sent d) = StatusDeployed
                   then insert (keyOf d) (observedDeployments c')
                   else if outcome d = None \<and> Status (sent d) = StatusDecommissioned
                   then observedDeployments c' - {keyOf d}
                   else observedDeployments c'
               | _ \<Rightarrow> observedDeployments c'))"
proof
  have "\<forall>k. (k \<in> observedDeployments c) = (lastDelivered k (deliveries c) = Some StatusDeployed)"
    using assms by simp
  then show "\<forall>k. (k \<in> observedDeployments (runAll env runs c))
            = (lastDelivered k (deliveries (runAll env runs c)) = Some StatusDeployed)"
    by (rule runAll_invariant)
  show "\<forall>c' pod ct st et.
          observedDeployments (snd (recordContainer env pod ct st et c'))
            = (case newDeliveries c' (snd (recordContainer env pod ct st et c')) of
                 [d] \<Rightarrow>
                   if outcome d = None \<and> Status (sent d) = StatusDeployed
                   then insert (keyOf d) (observedDeployments c')
                   else if outcome d = None \<and> Status (sent d) = StatusDecommissioned
                   then observedDeployments c' - {keyOf d}
                   else observedDeployments c'
               | _ \<Rightarrow> observedDeployments c')"
    using recordContainer_cache by blast
qed

text \<open>A successful \<open>deployed\<close> delivery followed by a \<open>decommissioned\<close> delivery that
  exhausts its retries: the key stays in the cache.\<close>

theorem dedup_cache_invariant_witness:
  "map outcome (deliveries (runAll
        (exCluster NotFound (\<lambda>n. if n = 0 then serving (\<lambda>k. 200) else serving (\<lambda>k. 500)))
        [(exPod, exContainer, StatusDeployed, EventCreated),
         (exPod, exContainer, StatusDecommissioned, EventDeleted)] exController))
     = [Some (AllRetriesExhausted (Some (UnexpectedStatus 500))), None]
   \<and> observedDeployments (runAll
        (exCluster NotFound (\<lambda>n. if n = 0 then serving (\<lambda>k. 200) else serving (\<lambda>k. 500)))
        [(exPod, exContainer, StatusDeployed, EventCreated),
         (exPod, exContainer, StatusDecommissioned, EventDeleted)] exController)
     = {''prod/web/app||sha256:aaaa''}
   \<and> lastDelivered ''prod/web/app||sha256:aaaa'' (deliveries (runAll
        (exCluster NotFound (\<lambda>n. if n = 0 then serving (\<lambda>k. 200) else serving (\<lambda>k. 500)))
        [(exPod, exContainer, StatusDeployed, EventCreated),
         (exPod, exContainer, StatusDecommissioned, EventDeleted)] exController))
     = Some StatusDeployed"
proof -
  let ?env = "exCluster NotFound (\<lambda>n. if n = 0 then serving (\<lambda>k. 200) else serving (\<lambda>k. 500))"
  let ?runs = "[(exPod, exContainer, StatusDeployed, EventCreated),
         (exPod, exContainer, StatusDecommissioned, EventDeleted)]"
  have fresh: "observedDeployments exController = {}" "deliveries exController = []"
    by (simp_all add: exController_def)
  have o: "map outcome (deliveries (runAll ?env ?runs exController))
     = [Some (AllRetriesExhausted (Some (UnexpectedStatus 500))), None]"
    by code_simp
  have c: "observedDeployments (runAll ?env ?runs exController) = {''prod/web/app||sha256:aaaa''}"
    by code_simp
  have "lastDelivered ''prod/web/app||sha256:aaaa'' (deliveries (runAll ?env ?runs exController))
     = Some StatusDeployed"
    using dedup_cache_invariant [OF fresh, of ?env ?runs, THEN conjunct1, rule_format,
        of "''prod/web/app||sha256:aaaa''"] c
    by simp
  then show ?thesis using o c by blast
qed

section \<open>The idempotency gate\<close>

lemma allDelivered_post:
  assumes "allDelivered env c"
  shows "\<exists>evs. PostOne (apiClient c) (net env n) (Some r) = (None, evs)"
proof -
  have "fst (PostOne (apiClient c) (net env n) (Some r)) = None"
    using assms by (simp add: allDelivered_def)
  then show ?thesis by (cases "PostOne (apiClient c) (net env n) (Some r)") simp
qed

lemma allDelivered_cong: "apiClient c' = apiClient c \<Longrightarrow> allDelivered env c' = allDelivered env c"
  by (simp add: allDelivered_def)

lemma reportedName_cong: "cfg c' = cfg c \<Longrightarrow> reportedName c' p ct = reportedName c p ct"
  by (simp add: reportedName_def)

lemma posted_built:
  assumes "st = StatusDeployed \<or> st = StatusDecommissioned"
  shows "posted \<lparr>sent = builtRecord c p ct st, outcome = perr, events = evs\<rparr>
           = (st, reportedName c p ct, digestOf p ct)"
  using assms by (auto simp: posted_def builtRecord_fields)

lemma gate_step:
  assumes ad: "allDelivered env c"
    and id: "reportedName c p ct = dn" "digestOf p ct = dg"
    and ne: "dn \<noteq> []" "dg \<noteq> []"
    and st: "st = StatusDeployed \<or> st = StatusDecommissioned"
  shows "apiClient (snd (recordContainer env p ct st et c)) = apiClient c
    \<and> cfg (snd (recordContainer env p ct st et c)) = cfg c
    \<and> (if (st = StatusDeployed) = (getCacheKey dn dg \<in> observedDeployments c)
        then snd (recordContainer env p ct st et c) = c
        else (\<exists>d. deliveries (snd (recordContainer env p ct st et c)) = d # deliveries c
               \<and> posted d = (st, dn, dg) \<and> outcome d = None)
             \<and> observedDeployments (snd (recordContainer env p ct st et c))
               = (if st = StatusDeployed then insert (getCacheKey dn dg) (observedDeployments c)
                  else observedDeployments c - {getCacheKey dn dg}))"
proof -
  have key: "identityKey c p ct = getCacheKey dn dg"
    by (simp add: identityKey_def id)
  show ?thesis
  proof (cases "(st = StatusDeployed) = (getCacheKey dn dg \<in> observedDeployments c)")
    case True
    then have "(st = StatusDeployed \<and> identityKey c p ct \<in> observedDeployments c)
        \<or> (st = StatusDecommissioned \<and> identityKey c p ct \<notin> observedDeployments c)"
      using st status_distinct key by auto
    then have "recordContainer env p ct st et c = (None, c)"
      by (intro recordContainer_skip) blast
    then show ?thesis using True by simp
  next
    case False
    then have open_gate: "(st = StatusDeployed \<and> identityKey c p ct \<notin> observedDeployments c)
        \<or> (st = StatusDecommissioned \<and> identityKey c p ct \<in> observedDeployments c)"
      using st status_distinct key by auto
    obtain evs where post:
      "PostOne (apiClient c) (net env (length (deliveries c))) (Some (builtRecord c p ct st))
         = (None, evs)"
      using allDelivered_post [OF ad] by blast
    have n1: "reportedName c p ct \<noteq> []" and n2: "digestOf p ct \<noteq> []"
      using id ne by simp_all
    note rc = recordContainer_post [OF n1 n2 open_gate post, of et]
    let ?d = "\<lparr>sent = builtRecord c p ct st, outcome = None, events = evs\<rparr>"
    have d: "deliveries (snd (recordContainer env p ct st et c)) = ?d # deliveries c"
      "posted ?d = (st, dn, dg)" "outcome ?d = None"
      using posted_built [OF st, of c p ct None evs] id by (simp_all add: rc)
    have "\<exists>d. deliveries (snd (recordContainer env p ct st et c)) = d # deliveries c
               \<and> posted d = (st, dn, dg) \<and> outcome d = None"
      using d by blast
    moreover have "observedDeployments (snd (recordContainer env p ct st et c))
               = (if st = StatusDeployed then insert (getCacheKey dn dg) (observedDeployments c)
                  else observedDeployments c - {getCacheKey dn dg})"
      by (simp add: rc key)
    moreover have "apiClient (snd (recordContainer env p ct st et c)) = apiClient c"
      "cfg (snd (recordContainer env p ct st et c)) = cfg c"
      by (simp_all add: rc)
    ultimately show ?thesis using False by simp
  qed
qed

lemma gate_closed:
  assumes "allDelivered env c" "reportedName c p ct = dn" "digestOf p ct = dg" "dn \<noteq> []" "dg \<noteq> []"
    and "st = StatusDeployed \<or> st = StatusDecommissioned"
    and "(st = StatusDeployed) = (getCacheKey dn dg \<in> observedDeployments c)"
  shows "snd (recordContainer env p ct st et c) = c"
  using gate_step [OF assms(1-6), of et] assms(7) by simp

lemma gate_open:
  assumes "allDelivered env c" "reportedName c p ct = dn" "digestOf p ct = dg" "dn \<noteq> []" "dg \<noteq> []"
    and "st = StatusDeployed \<or> st = StatusDecommissioned"
    and "(st = StatusDeployed) \<noteq> (getCacheKey dn dg \<in> observedDeployments c)"
  obtains d where "deliveries (snd (recordContainer env p ct st et c)) = d # deliveries c"
    "posted d = (st, dn, dg)" "outcome d = None"
    "observedDeployments (snd (recordContainer env p ct st et c))
       = (if st = StatusDeployed then insert (getCacheKey dn dg) (observedDeployments c)
          else observedDeployments c - {getCacheKey dn dg})"
    "allDelivered env (snd (recordContainer env p ct st et c))"
    "\<And>p' ct'. reportedName (snd (recordContainer env p ct st et c)) p' ct' = reportedName c p' ct'"
proof -
  note g = gate_step [OF assms(1-6), of et]
  have a: "allDelivered env (snd (recordContainer env p ct st et c))"
    using g assms(1) allDelivered_cong by blast
  have r: "reportedName (snd (recordContainer env p ct st et c)) p' ct' = reportedName c p' ct'"
    for p' ct'
    using g reportedName_cong by blast
  from g assms(7) obtain d where
    "deliveries (snd (recordContainer env p ct st et c)) = d # deliveries c"
    "posted d = (st, dn, dg)" "outcome d = None"
    "observedDeployments (snd (recordContainer env p ct st et c))
       = (if st = StatusDeployed then insert (getCacheKey dn dg) (observedDeployments c)
          else observedDeployments c - {getCacheKey dn dg})"
    by auto
  then show thesis using that a r by blast
qed

text \<open>C1, as the code has it: when every delivery succeeds, a container whose reported name
  and digest are both non-empty has a \<open>deployed\<close> record POSTed exactly when the dedup cache
  holds no entry under its key, and a \<open>decommissioned\<close> record exactly when it holds one.
  Hence, starting without an entry: two consecutive deployed events of one identity make one
  POST; a decommissioned event makes none; and deployed, decommissioned, deployed make
  three POSTs (deployed, decommissioned, deployed), not two, since the decommissioned record
  is delivered too and clears the entry.\<close>

theorem idempotency_gate:
  assumes ad: "allDelivered env c"
    and ne: "dn \<noteq> []" "dg \<noteq> []"
    and id1: "reportedName c p1 ct1 = dn" "digestOf p1 ct1 = dg"
    and id2: "reportedName c p2 ct2 = dn" "digestOf p2 ct2 = dg"
    and id3: "reportedName c p3 ct3 = dn" "digestOf p3 ct3 = dg"
  shows "map posted (newDeliveries c (snd (recordContainer env p1 ct1 StatusDeployed e1 c)))
        = (if getCacheKey dn dg \<in> observedDeployments c then [] else [(StatusDeployed, dn, dg)])
    \<and> map posted (newDeliveries c (snd (recordContainer env p1 ct1 StatusDecommissioned e1 c)))
        = (if getCacheKey dn dg \<in> observedDeployments c then [(StatusDecommissioned, dn, dg)]
           else [])
    \<and> (getCacheKey dn dg \<notin> observedDeployments c \<longrightarrow>
         map posted (newDeliveries c
           (runAll env [(p1, ct1, StatusDeployed, e1), (p2, ct2, StatusDeployed, e2)] c))
           = [(StatusDeployed, dn, dg)]
         \<and> newDeliveries c (runAll env [(p1, ct1, StatusDecommissioned, e1)] c) = []
         \<and> map posted (newDeliveries c
           (runAll env [(p1, ct1, StatusDeployed, e1), (p2, ct2, StatusDecommissioned, e2),
                        (p3, ct3, StatusDeployed, e3)] c))
           = [(StatusDeployed, dn, dg), (StatusDecommissioned, dn, dg), (StatusDeployed, dn, dg)])"
proof (intro conjI impI)
  let ?k = "getCacheKey dn dg"
  have sd: "StatusDeployed = StatusDeployed \<or> StatusDeployed = StatusDecommissioned"
    and sx: "StatusDecommissioned = StatusDeployed \<or> StatusDecommissioned = StatusDecommissioned"
    by simp_all
  note distinct = status_distinct
  show "map posted (newDeliveries c (snd (recordContainer env p1 ct1 StatusDeployed e1 c)))
        = (if ?k \<in> observedDeployments c then [] else [(StatusDeployed, dn, dg)])"
  proof (cases "?k \<in> observedDeployments c")
    case True
    then show ?thesis
      using gate_closed [OF ad id1 ne sd, of e1] by simp
  next
    case False
    then have "(StatusDeployed = StatusDeployed) \<noteq> (?k \<in> observedDeployments c)" by simp
    from gate_open [OF ad id1 ne sd this, of e1] obtain d where
      "deliveries (snd (recordContainer env p1 ct1 StatusDeployed e1 c)) = d # deliveries c"
      "posted d = (StatusDeployed, dn, dg)"
      by metis
    then show ?thesis
      using False newDeliveries_append [of "snd (recordContainer env p1 ct1 StatusDeployed e1 c)" "[d]" c]
      by simp
  qed
  show "map posted (newDeliveries c (snd (recordContainer env p1 ct1 StatusDecommissioned e1 c)))
        = (if ?k \<in> observedDeployments c then [(StatusDecommissioned, dn, dg)] else [])"
  proof (cases "?k \<in> observedDeployments c")
    case False
    then show ?thesis
      using gate_closed [OF ad id1 ne sx, of e1] distinct by simp
  next
    case True
    then have "(StatusDecommissioned = StatusDeployed) \<noteq> (?k \<in> observedDeployments c)"
      using distinct by simp
    from gate_open [OF ad id1 ne sx this, of e1] obtain d where
      "deliveries (snd (recordContainer env p1 ct1 StatusDecommissioned e1 c)) = d # deliveries c"
      "posted d = (StatusDecommissioned, dn, dg)"
      by metis
    then show ?thesis
      using True
        newDeliveries_append [of "snd (recordContainer env p1 ct1 StatusDecommissioned e1 c)" "[d]" c]
      by simp
  qed
next
  let ?k = "getCacheKey dn dg"
  assume absent: "?k \<notin> observedDeployments c"
  have sd: "StatusDeployed = StatusDeployed \<or> StatusDeployed = StatusDecommissioned"
    and sx: "StatusDecommissioned = StatusDeployed \<or> StatusDecommissioned = StatusDecommissioned"
    by simp_all
  note distinct = status_distinct
  \<comment> \<open>the first deployed event\<close>
  define s1 where "s1 = snd (recordContainer env p1 ct1 StatusDeployed e1 c)"
  have "(StatusDeployed = StatusDeployed) \<noteq> (?k \<in> observedDeployments c)"
    using absent by simp
  from gate_open [OF ad id1 ne sd this, of e1] obtain d1 where s1:
    "deliveries s1 = d1 # deliveries c" "posted d1 = (StatusDeployed, dn, dg)"
    "observedDeployments s1 = insert ?k (observedDeployments c)"
    "allDelivered env s1" "\<And>p' ct'. reportedName s1 p' ct' = reportedName c p' ct'"
    unfolding s1_def by (metis (full_types))
  have present1: "?k \<in> observedDeployments s1" using s1(3) by simp
  have id2': "reportedName s1 p2 ct2 = dn" using s1(5) id2(1) by simp
  \<comment> \<open>a second deployed event is skipped\<close>
  have dd: "snd (recordContainer env p2 ct2 StatusDeployed e2 s1) = s1"
    using gate_closed [OF s1(4) id2' id2(2) ne sd, of e2] present1 by simp
  show "map posted (newDeliveries c
           (runAll env [(p1, ct1, StatusDeployed, e1), (p2, ct2, StatusDeployed, e2)] c))
           = [(StatusDeployed, dn, dg)]"
    using newDeliveries_append [of s1 "[d1]" c] s1(1,2) dd
    by (simp add: s1_def [symmetric])
  \<comment> \<open>a decommissioned event with no entry is skipped\<close>
  show "newDeliveries c (runAll env [(p1, ct1, StatusDecommissioned, e1)] c) = []"
    using gate_closed [OF ad id1 ne sx, of e1] absent distinct by simp
  \<comment> \<open>deployed, decommissioned, deployed\<close>
  define s2 where "s2 = snd (recordContainer env p2 ct2 StatusDecommissioned e2 s1)"
  have "(StatusDecommissioned = StatusDeployed) \<noteq> (?k \<in> observedDeployments s1)"
    using present1 distinct by simp
  from gate_open [OF s1(4) id2' id2(2) ne sx this, of e2] obtain d2 where s2:
    "deliveries s2 = d2 # deliveries s1" "posted d2 = (StatusDecommissioned, dn, dg)"
    "observedDeployments s2 = observedDeployments s1 - {?k}"
    "allDelivered env s2" "\<And>p' ct'. reportedName s2 p' ct' = reportedName s1 p' ct'"
    unfolding s2_def using distinct by (metis (full_types))
  have absent2: "?k \<notin> observedDeployments s2" using s2(3) by simp
  have id3': "reportedName s2 p3 ct3 = dn" using s2(5) s1(5) id3(1) by simp
  define s3 where "s3 = snd (recordContainer env p3 ct3 StatusDeployed e3 s2)"
  have "(StatusDeployed = StatusDeployed) \<noteq> (?k \<in> observedDeployments s2)"
    using absent2 by simp
  from gate_open [OF s2(4) id3' id3(2) ne sd this, of e3] obtain d3 where s3:
    "deliveries s3 = d3 # deliveries s2" "posted d3 = (StatusDeployed, dn, dg)"
    unfolding s3_def by (metis (full_types))
  have "deliveries s3 = [d3, d2, d1] @ deliveries c"
    using s1(1) s2(1) s3(1) by simp
  then have "newDeliveries c s3 = [d3, d2, d1]"
    by (rule newDeliveries_append)
  then show "map posted (newDeliveries c
           (runAll env [(p1, ct1, StatusDeployed, e1), (p2, ct2, StatusDecommissioned, e2),
                        (p3, ct3, StatusDeployed, e3)] c))
           = [(StatusDeployed, dn, dg), (StatusDecommissioned, dn, dg), (StatusDeployed, dn, dg)]"
    using s1(2) s2(2) s3(2)
    by (simp add: s1_def [symmetric] s2_def [symmetric] s3_def [symmetric])
qed


lemma exNetwork_delivers: "allDelivered (exCluster p (\<lambda>n. serving (\<lambda>k. 200))) exController"
proof -
  have "fst (PostOne exClient (serving (\<lambda>k. 200)) (Some r)) = None" for r
    using PostOne_final(1) [of "serving (\<lambda>k. 200)" 0 exClient 200 r]
    by (simp add: serving_simps exClient_budget)
  then show ?thesis
    by (simp add: allDelivered_def exCluster_def exController_def)
qed

theorem idempotency_gate_witness:
  "map posted (newDeliveries exController
      (runAll (exCluster NotFound (\<lambda>n. serving (\<lambda>k. 200)))
        [(exPod, exContainer, StatusDeployed, EventCreated),
         (exPod, exContainer, StatusDeployed, EventCreated)] exController))
     = [(StatusDeployed, ''prod/web/app'', ''sha256:aaaa'')]
   \<and> newDeliveries exController
      (runAll (exCluster NotFound (\<lambda>n. serving (\<lambda>k. 200)))
        [(exPod, exContainer, StatusDecommissioned, EventDeleted)] exController) = []
   \<and> map posted (newDeliveries exController
      (runAll (exCluster NotFound (\<lambda>n. serving (\<lambda>k. 200)))
        [(exPod, exContainer, StatusDeployed, EventCreated),
         (exPod, exContainer, StatusDecommissioned, EventDeleted),
         (exPod, exContainer, StatusDeployed, EventCreated)] exController))
     = [(StatusDeployed, ''prod/web/app'', ''sha256:aaaa''),
        (StatusDecommissioned, ''prod/web/app'', ''sha256:aaaa''),
        (StatusDeployed, ''prod/web/app'', ''sha256:aaaa'')]"
proof -
  have dn: "reportedName exController exPod exContainer = ''prod/web/app''"
    by (simp add: reportedName_def exController_def exPod_reported_name)
  have dg: "digestOf exPod exContainer = ''sha256:aaaa''"
    by (simp add: digestOf_def exPod_digest)
  have ne: "''prod/web/app'' \<noteq> []" "''sha256:aaaa'' \<noteq> []"
    by simp_all
  have absent: "getCacheKey ''prod/web/app'' ''sha256:aaaa'' \<notin> observedDeployments exController"
    by (simp add: exController_def)
  let ?env = "exCluster NotFound (\<lambda>n. serving (\<lambda>k. 200))"
  note two = idempotency_gate [of ?env exController "''prod/web/app''" "''sha256:aaaa''"
      exPod exContainer exPod exContainer exPod exContainer EventCreated EventCreated EventCreated,
      OF exNetwork_delivers ne dn dg dn dg dn dg,
      THEN conjunct2, THEN conjunct2, rule_format, OF absent]
  note three = idempotency_gate [of ?env exController "''prod/web/app''" "''sha256:aaaa''"
      exPod exContainer exPod exContainer exPod exContainer EventDeleted EventDeleted EventCreated,
      OF exNetwork_delivers ne dn dg dn dg dn dg,
      THEN conjunct2, THEN conjunct2, rule_format, OF absent]
  note dxd = idempotency_gate [of ?env exController "''prod/web/app''" "''sha256:aaaa''"
      exPod exContainer exPod exContainer exPod exContainer EventCreated EventDeleted EventCreated,
      OF exNetwork_delivers ne dn dg dn dg dn dg,
      THEN conjunct2, THEN conjunct2, rule_format, OF absent]
  show ?thesis
    using two [THEN conjunct1] three [THEN conjunct2, THEN conjunct1]
      dxd [THEN conjunct2, THEN conjunct2]
    by blast
qed

text \<open>The claim as stated gives two POSTs for deployed, decommissioned, deployed. On the
  example pod, with a server that answers 200 every time, the controller makes three calls
  of PostOne, all successful.\<close>

theorem idempotency_gate_counterexample:
  "map (\<lambda>d. (Status (sent d), outcome d))
      (deliveries (runAll (exCluster NotFound (\<lambda>n. serving (\<lambda>k. 200)))
        [(exPod, exContainer, StatusDeployed, EventCreated),
         (exPod, exContainer, StatusDecommissioned, EventDeleted),
         (exPod, exContainer, StatusDeployed, EventCreated)] exController))
     = [(''deployed'', None), (''decommissioned'', None), (''deployed'', None)]
   \<and> length (deliveries (runAll (exCluster NotFound (\<lambda>n. serving (\<lambda>k. 200)))
        [(exPod, exContainer, StatusDeployed, EventCreated),
         (exPod, exContainer, StatusDecommissioned, EventDeleted),
         (exPod, exContainer, StatusDeployed, EventCreated)] exController)) \<noteq> 2"
  by code_simp

section \<open>What ExtractDigest computes\<close>

lemma Index_None:
  assumes "Index s sub = None"
  shows "take (length sub) (drop j s) \<noteq> sub"
  using assms
proof (induction s arbitrary: j)
  case Nil
  then show ?case by (auto split: if_splits)
next
  case (Cons c cs)
  from Cons.prems have np: "\<not> HasPrefix (c # cs) sub" and rest: "Index cs sub = None"
    by (auto split: if_splits)
  show ?case
  proof (cases j)
    case 0
    then show ?thesis using np by (simp add: HasPrefix_def)
  next
    case (Suc j')
    then show ?thesis using Cons.IH [OF rest, of j'] by simp
  qed
qed

lemma Index_Some:
  assumes "Index s sub = Some i"
  shows "take (length sub) (drop i s) = sub \<and> (\<forall>j<i. take (length sub) (drop j s) \<noteq> sub)"
  using assms
proof (induction s arbitrary: i)
  case Nil
  then show ?case by (auto split: if_splits)
next
  case (Cons c cs)
  show ?case
  proof (cases "HasPrefix (c # cs) sub")
    case True
    then have "i = 0" using Cons.prems by simp
    then show ?thesis using True by (simp add: HasPrefix_def)
  next
    case False
    then obtain i' where i': "Index cs sub = Some i'" "i = Suc i'"
      using Cons.prems by auto
    have ih: "take (length sub) (drop i' cs) = sub"
      "\<forall>j<i'. take (length sub) (drop j cs) \<noteq> sub"
      using Cons.IH [OF i'(1)] by simp_all
    have "take (length sub) (drop j (c # cs)) \<noteq> sub" if "j < i" for j
    proof (cases j)
      case 0
      then show ?thesis using False by (simp add: HasPrefix_def)
    next
      case (Suc j')
      then show ?thesis using ih(2) that i'(2) by simp
    qed
    then show ?thesis using ih(1) i'(2) by simp
  qed
qed

lemma marker_length: "length ''sha256:'' = 7"
  by simp

lemma digestLoop_skip:
  assumes "\<forall>j. i \<le> j \<and> j < m \<longrightarrow> take 7 (drop j s) \<noteq> ''sha256:''" and "i \<le> m"
  shows "digestLoop s i = digestLoop s m"
  using assms
proof (induction "m - i" arbitrary: i)
  case 0
  then show ?case by simp
next
  case (Suc d)
  then have lt: "i < m" by simp
  have nomatch: "take 7 (drop i s) \<noteq> ''sha256:''"
    using Suc.prems(1) lt by simp
  show ?case
  proof (cases "int i < int (length s) - 7")
    case True
    have "digestLoop s i = digestLoop s (Suc i)"
      using True nomatch by (subst digestLoop.simps) simp
    also have "\<dots> = digestLoop s m"
      using Suc.hyps Suc.prems lt by (intro Suc.hyps(1)) auto
    finally show ?thesis .
  next
    case False
    then have "\<not> int m < int (length s) - 7" using lt by simp
    then have "digestLoop s m = s" by (subst digestLoop.simps) simp
    moreover have "digestLoop s i = s" using False by (subst digestLoop.simps) simp
    ultimately show ?thesis by simp
  qed
qed

lemma digestLoop_none:
  assumes "\<forall>j. take 7 (drop j s) \<noteq> ''sha256:''"
  shows "digestLoop s i = s"
proof -
  have "digestLoop s i = digestLoop s (max i (length s))"
    using assms by (intro digestLoop_skip) auto
  also have "\<dots> = s"
  proof -
    have "\<not> int (max i (length s)) < int (length s) - 7" by simp
    then show ?thesis by (subst digestLoop.simps) (simp only: if_False)
  qed
  finally show ?thesis .
qed

lemma findEnd_takeWhile:
  "findEnd r j = j + length (takeWhile (\<lambda>c. c \<noteq> CHR ''@'' \<and> c \<noteq> CHR '' '') r)"
  by (induction r arbitrary: j) auto

lemma take_findEnd:
  "take (findEnd r 0) r = takeWhile (\<lambda>c. c \<noteq> CHR ''@'' \<and> c \<noteq> CHR '' '') r"
  by (simp add: findEnd_takeWhile takeWhile_eq_take [symmetric])

text \<open>What ExtractDigest computes: the contract's answer, except when the first occurrence of
  the marker is the very end of the input, where the input is returned unchanged.\<close>

lemma ExtractDigest_characterisation:
  "ExtractDigest s =
     (case Index s ''sha256:'' of
        None \<Rightarrow> s
      | Some i \<Rightarrow> if i + 7 = length s then s else spec_ExtractDigest s)"
proof (cases "Index s ''sha256:''")
  case None
  have "\<forall>j. take 7 (drop j s) \<noteq> ''sha256:''"
    using Index_None [OF None, unfolded marker_length] by blast
  then have "digestLoop s 0 = s" by (rule digestLoop_none)
  then show ?thesis using None by (simp add: ExtractDigest_def)
next
  case (Some i)
  have at: "take 7 (drop i s) = ''sha256:''" and before: "\<forall>j<i. take 7 (drop j s) \<noteq> ''sha256:''"
    using Index_Some [OF Some, unfolded marker_length] by blast+
  have len: "i + 7 \<le> length s"
  proof (rule ccontr)
    assume "\<not> i + 7 \<le> length s"
    then have "length (take 7 (drop i s)) < 7" by simp
    then show False using at by simp
  qed
  have ne: "s \<noteq> []" using len by auto
  have skip: "digestLoop s 0 = digestLoop s i"
    using before by (intro digestLoop_skip) auto
  show ?thesis
  proof (cases "i + 7 = length s")
    case True
    then have "digestLoop s i = s" by (subst digestLoop.simps) simp
    then show ?thesis using Some True skip ne by (simp add: ExtractDigest_def)
  next
    case False
    then have "int i < int (length s) - 7" using len by simp
    then have "digestLoop s i = take (findEnd (drop i s) 0) (drop i s)"
      using at by (subst digestLoop.simps) (simp add: Let_def)
    then show ?thesis
      using Some False skip ne
      by (simp add: ExtractDigest_def spec_ExtractDigest_def take_findEnd)
  qed
qed

lemma ExtractDigest_empty: "ExtractDigest [] = []"
  by (simp add: ExtractDigest_def)

section \<open>What NewClient checks\<close>

text \<open>When NewClient returns an error, in the code's own terms.\<close>

lemma NewClient_fails_iff:
  "(\<exists>e. NewClient url organization opts = Failed e)
     = ((HasPrefix url ''http://'' \<and> \<not> isLocal url) \<or> \<not> validOrgPattern organization)"
  by (auto simp: NewClient_def Let_def split: option.splits)

section \<open>Backoff delays without overflow\<close>

text \<open>Up to attempt 36 nothing wraps and the delay is the capped formula.\<close>

lemma backoffDelay_exact:
  assumes "k \<le> 36"
  shows "backoffDelay ovf k r
    = min (5 * Second) (2 ^ k * 100 * Millisecond + Int64N r 50 * Millisecond)"
proof -
  have j: "0 \<le> Int64N r 50" "Int64N r 50 < 50" using Int64N_range by simp_all
  have "(2::int) ^ k \<le> 2 ^ 36" using assms by (intro power_increasing) simp_all
  then have p: "(2::int) ^ k \<le> 68719476736" by simp
  have p0: "0 \<le> (2::int) ^ k" by simp
  have small: "wrap64 x = x" if "0 \<le> x" "x \<le> 9223372036854775807" for x
    using that by (simp add: wrap64_def)
  have pw: "pow2Duration ovf k = 2 ^ k" using assms by (simp add: pow2Duration_def)
  have w1: "wrap64 (2 ^ k * 100) = 2 ^ k * 100"
  proof (rule small)
    show "0 \<le> (2::int) ^ k * 100" by simp
    show "(2::int) ^ k * 100 \<le> 9223372036854775807" using p by linarith
  qed
  have w2: "wrap64 (2 ^ k * 100 * Millisecond) = 2 ^ k * 100 * Millisecond"
  proof (rule small)
    show "0 \<le> (2::int) ^ k * 100 * Millisecond" by (simp add: Millisecond_def)
    show "(2::int) ^ k * 100 * Millisecond \<le> 9223372036854775807"
      unfolding Millisecond_def using p by linarith
  qed
  have w3: "wrap64 (Int64N r 50 * Millisecond) = Int64N r 50 * Millisecond"
  proof (rule small)
    show "0 \<le> Int64N r 50 * Millisecond" using j by (simp add: Millisecond_def)
    show "Int64N r 50 * Millisecond \<le> 9223372036854775807"
      unfolding Millisecond_def using j by linarith
  qed
  have w4: "wrap64 (2 ^ k * 100 * Millisecond + Int64N r 50 * Millisecond)
      = 2 ^ k * 100 * Millisecond + Int64N r 50 * Millisecond"
  proof (rule small)
    show "0 \<le> (2::int) ^ k * 100 * Millisecond + Int64N r 50 * Millisecond"
      using j by (simp add: Millisecond_def)
    show "(2::int) ^ k * 100 * Millisecond + Int64N r 50 * Millisecond \<le> 9223372036854775807"
      unfolding Millisecond_def using p j by linarith
  qed
  show ?thesis
    unfolding backoffDelay_def Let_def pw w1 w2 w3 w4 by (simp add: min_def)
qed

text \<open>When no attempt is cut short, the trace is made of the attempts' events: a sleep
  before every round trip but the first, and nothing else.\<close>

lemma attemptLoop_trace:
  assumes "\<forall>j. undisturbed c env j"
  shows "snd (attemptLoop c env n k le)
    = concat (map (attemptEvents env) (calls (snd (attemptLoop c env n k le))))"
proof (induction n arbitrary: k le)
  case 0
  show ?case by simp
next
  case (Suc n)
  have u: "undisturbed c env k" using assms by simp
  have ev: "(if 0 < k then [Sleep (backoffDelay (floatOverflow env) k (rnd (attemptEnv env k)))]
             else []) @ [Call k] = attemptEvents env k"
    by (simp add: attemptEvents_def)
  have cv: "calls (attemptEvents env k) = [k]"
    by (simp add: attemptEvents_def)
  show ?case
  proof (cases "reply (attemptEnv env k)")
    case NetworkError
    then show ?thesis
      using Suc.IH [of "Suc k" "Some PostRequestFailed"]
      by (simp add: attemptLoop_step [OF u] ev snd_after calls_append cv del: attemptLoop.simps)
  next
    case (Response code)
    consider (ok) "200 \<le> code \<and> code < 300"
      | (perm) "\<not> (200 \<le> code \<and> code < 300)" "400 \<le> code \<and> code < 500 \<and> code \<noteq> 429"
      | (soft) "\<not> (200 \<le> code \<and> code < 300)" "\<not> (400 \<le> code \<and> code < 500 \<and> code \<noteq> 429)"
      by blast
    then show ?thesis
    proof cases
      case ok
      then show ?thesis
        using Response by (simp add: attemptLoop_step [OF u] ev cv del: attemptLoop.simps)
    next
      case perm
      then show ?thesis
        using Response by (simp add: attemptLoop_step [OF u] ev cv del: attemptLoop.simps)
    next
      case soft
      have "attemptLoop c env (Suc n) k le
          = after (attemptEvents env k) (attemptLoop c env n (Suc k) (Some (UnexpectedStatus code)))"
        using Response soft by (auto simp add: attemptLoop_step [OF u] ev simp del: attemptLoop.simps)
      then show ?thesis
        using Suc.IH [of "Suc k" "Some (UnexpectedStatus code)"]
        by (simp add: snd_after calls_append cv del: attemptLoop.simps)
    qed
  qed
qed

lemma PostOne_trace:
  assumes "\<not> limiterErr env" and "\<forall>j. undisturbed c env j"
  shows "snd (PostOne c env (Some r))
    = concat (map (attemptEvents env) (calls (snd (PostOne c env (Some r)))))"
  using attemptLoop_trace [OF assms(2)] by (simp add: PostOne_loop [OF assms(1)] del: attemptLoop.simps)

text \<open>The scenario of the specification: three retries, 500 on the first three attempts and
  200 on the fourth. Four round trips, and three sleeps of 200, 400 and 800 milliseconds plus
  jitter: strictly increasing and below the cap, whatever the jitter.\<close>

lemma PostOne_three_retries:
  assumes "retries c = 3" and "\<not> limiterErr env" and "\<forall>j. undisturbed c env j"
    and "reply (attemptEnv env 0) = Response 500" and "reply (attemptEnv env 1) = Response 500"
    and "reply (attemptEnv env 2) = Response 500" and "reply (attemptEnv env 3) = Response 200"
  defines "d \<equiv> \<lambda>k. 2 ^ k * 100 * Millisecond + Int64N (rnd (attemptEnv env k)) 50 * Millisecond"
  shows "PostOne c env (Some r)
      = (None, [Call 0, Sleep (d 1), Call 1, Sleep (d 2), Call 2, Sleep (d 3), Call 3])"
    and "d 1 < d 2" and "d 2 < d 3" and "d 3 < 5 * Second"
proof -
  have budget: "attemptBudget c = 4"
    using assms(1) by (simp add: attemptBudget_def wrap64_def)
  have soft: "\<forall>j<3. softFail (reply (attemptEnv env j))"
  proof (intro allI impI)
    fix j :: nat assume "j < 3"
    then consider "j = 0" | "j = 1" | "j = 2" by linarith
    then show "softFail (reply (attemptEnv env j))"
      using assms(4-6) by cases (simp_all add: softFail_def)
  qed
  have fin: "fst (PostOne c env (Some r)) = None"
    "calls (snd (PostOne c env (Some r))) = [0, 1, 2, 3]"
    using PostOne_final(1) [OF assms(2), of 3 c 200 r] assms(3,7) soft budget
    by (simp_all add: upt_4)
  have jit: "0 \<le> Int64N (rnd (attemptEnv env k)) 50" "Int64N (rnd (attemptEnv env k)) 50 < 50" for k
    using Int64N_range by simp_all
  have delay: "backoffDelay (floatOverflow env) k (rnd (attemptEnv env k)) = d k"
    if "k = 1 \<or> k = 2 \<or> k = 3" for k
  proof -
    have "k \<le> 36" using that by auto
    moreover have "d k \<le> 5 * Second"
      using that jit [of k] by (auto simp: d_def Millisecond_def Second_def)
    ultimately show ?thesis
      by (simp add: backoffDelay_exact d_def)
  qed
  have "snd (PostOne c env (Some r))
      = [Call 0, Sleep (d 1), Call 1, Sleep (d 2), Call 2, Sleep (d 3), Call 3]"
    using PostOne_trace [OF assms(2,3), of r] delay
    by (simp add: fin(2) attemptEvents_def)
  then show "PostOne c env (Some r)
      = (None, [Call 0, Sleep (d 1), Call 1, Sleep (d 2), Call 2, Sleep (d 3), Call 3])"
    using fin(1) by (cases "PostOne c env (Some r)") simp
  show "d 1 < d 2" using jit [of 1] jit [of 2] by (simp add: d_def Millisecond_def)
  show "d 2 < d 3" using jit [of 2] jit [of 3] by (simp add: d_def Millisecond_def)
  show "d 3 < 5 * Second" using jit [of 3] by (simp add: d_def Millisecond_def Second_def)
qed

end
